theory Spec2Isabelle
  imports Main
begin

section \<open>Strings and numbers of the JavaScript runtime\<close>

text \<open>
  A JavaScript string is modelled as a HOL \<open>string\<close>: the list of its code units, each
  below 256 (the Latin-1 range; challenge pages and hex strings are ASCII).  The numbers
  that occur in \<open>toNumbers\<close> and \<open>toHex\<close> are the results of \<open>parseInt\<close>: an
  integer or \<open>NaN\<close> (negative zero is identified with zero; both print as \<open>0\<close>).
\<close>

datatype js_number = NaN | Num int

text \<open>\<open>String.prototype.includes\<close>: the argument occurs as a contiguous substring.\<close>

fun startsWith :: "string \<Rightarrow> string \<Rightarrow> bool" where
  "startsWith s [] = True"
| "startsWith [] (m # ms) = False"
| "startsWith (c # s) (m # ms) = (c = m \<and> startsWith s ms)"

fun includes_str :: "string \<Rightarrow> string \<Rightarrow> bool" where
  "includes_str [] m = (m = [])"
| "includes_str (c # s) m = (startsWith (c # s) m \<or> includes_str s m)"

text \<open>
  The character classes of the regular expressions and of \<open>parseInt\<close>: \<open>.\<close> matches
  every code unit but a line terminator; \<open>\s\<close> (and the white space \<open>parseInt\<close> skips)
  is tab, line feed, vertical tab, form feed, carriage return, space and no-break space;
  \<open>[a-fA-F0-9]\<close> is a hexadecimal digit.
\<close>

definition isLineTerminator :: "char \<Rightarrow> bool" where
  "isLineTerminator c = (c = CHR 0x0A \<or> c = CHR 0x0D)"

definition isWhiteSpace :: "char \<Rightarrow> bool" where
  "isWhiteSpace c =
     (c = CHR 0x09 \<or> c = CHR 0x0A \<or> c = CHR 0x0B \<or> c = CHR 0x0C \<or> c = CHR 0x0D \<or>
      c = CHR 0x20 \<or> c = CHR 0xA0)"

definition isHexDigit :: "char \<Rightarrow> bool" where
  "isHexDigit c =
     (let n = (of_char c :: nat)
      in (48 \<le> n \<and> n \<le> 57) \<or> (97 \<le> n \<and> n \<le> 102) \<or> (65 \<le> n \<and> n \<le> 70))"

definition digitValue :: "char \<Rightarrow> nat" where
  "digitValue c =
     (let n = (of_char c :: nat)
      in if 48 \<le> n \<and> n \<le> 57 then n - 48
         else if 97 \<le> n \<and> n \<le> 102 then n - 87
         else if 65 \<le> n \<and> n \<le> 70 then n - 55
         else 0)"

definition hexChar :: "nat \<Rightarrow> char" where
  "hexChar d = (if d < 10 then char_of (48 + d) else char_of (87 + d))"

subsection \<open>\<open>parseInt(s, 16)\<close>\<close>

text \<open>
  ECMAScript \<open>parseInt\<close> with radix 16: leading white space is skipped, one sign is read,
  a prefix \<open>0x\<close> or \<open>0X\<close> is dropped, and the longest run of hexadecimal digits that
  follows is the value; an empty run is \<open>NaN\<close>.
\<close>

definition hexValue :: "string \<Rightarrow> nat" where
  "hexValue Z = foldl (\<lambda>acc c. 16 * acc + digitValue c) 0 Z"

definition parseInt16 :: "string \<Rightarrow> js_number" where
  "parseInt16 str =
     (let S = dropWhile isWhiteSpace str;
          sign = (if S \<noteq> [] \<and> hd S = CHR ''-'' then - 1 else (1 :: int));
          S1 = (if S \<noteq> [] \<and> (hd S = CHR ''+'' \<or> hd S = CHR ''-'') then tl S else S);
          S2 = (if take 2 S1 = ''0x'' \<or> take 2 S1 = ''0X'' then drop 2 S1 else S1);
          Z = takeWhile isHexDigit S2
      in if Z = [] then NaN else Num (sign * int (hexValue Z)))"

subsection \<open>\<open>toNumbers\<close> and \<open>toHex\<close>\<close>

text \<open>
  \<open>toNumbers\<close> is \<open>hex.replace(/(..)/g, match => result.push(parseInt(match, 16)))\<close>:
  the global scan tries a match at each index from the left; a match takes two code units
  that are no line terminators and the scan goes on after them, a failed attempt moves one
  code unit on.  A last single code unit matches nothing.
\<close>

fun toNumbers :: "string \<Rightarrow> js_number list" where
  "toNumbers (x # y # rest) =
     (if \<not> isLineTerminator x \<and> \<not> isLineTerminator y
      then parseInt16 [x, y] # toNumbers rest
      else toNumbers (y # rest))"
| "toNumbers [x] = []"
| "toNumbers [] = []"

text \<open>\<open>Number.prototype.toString(16)\<close> on an integer or \<open>NaN\<close>.\<close>

function hexDigits :: "nat \<Rightarrow> string" where
  "hexDigits n = (if n < 16 then [hexChar n] else hexDigits (n div 16) @ [hexChar (n mod 16)])"
  by pat_completeness auto
termination
  by (relation "measure id") auto

declare hexDigits.simps [simp del]

fun toString16 :: "js_number \<Rightarrow> string" where
  "toString16 NaN = ''NaN''"
| "toString16 (Num n) = (if n < 0 then ''-'' @ hexDigits (nat (- n)) else hexDigits (nat n))"

text \<open>The comparison \<open>numbers[i] < 16\<close>: false on \<open>NaN\<close>.\<close>

fun lessThan16 :: "js_number \<Rightarrow> bool" where
  "lessThan16 NaN = False"
| "lessThan16 (Num n) = (n < 16)"

text \<open>\<open>String.prototype.toLowerCase\<close> on code units below 256.\<close>

definition toLowerChar :: "char \<Rightarrow> char" where
  "toLowerChar c =
     (let n = (of_char c :: nat)
      in if (65 \<le> n \<and> n \<le> 90) \<or> (192 \<le> n \<and> n \<le> 222 \<and> n \<noteq> 215)
         then char_of (n + 32) else c)"

definition toLowerCase :: "string \<Rightarrow> string" where
  "toLowerCase s = map toLowerChar s"

text \<open>The loop of \<open>toHex\<close>, with \<open>result\<close> as the accumulator.\<close>

fun toHex_loop :: "js_number list \<Rightarrow> string \<Rightarrow> string" where
  "toHex_loop [] result = result"
| "toHex_loop (x # xs) result =
     toHex_loop xs (result @ (if lessThan16 x then ''0'' else '''') @ toString16 x)"

definition toHex :: "js_number list \<Rightarrow> string" where
  "toHex numbers = toLowerCase (toHex_loop numbers '''')"

text \<open>The two lowercase hexadecimal digits of a byte, high nibble first.\<close>

definition byteHex :: "int \<Rightarrow> string" where
  "byteHex x = [hexChar (nat x div 16), hexChar (nat x mod 16)]"

section \<open>The regular expressions of \<open>extractEncryptedValues\<close>\<close>

text \<open>
  The four regular expressions of the source are concatenations of literals, \<open>\s*\<close>,
  \<open>\s+\<close> and the capturing group \<open>([a-fA-F0-9]+)\<close>.  A pattern is the list of these
  items.  A quantified class is greedy and backtracks: it first takes the longest run of
  the class and gives characters back one at a time while the rest of the pattern fails.
\<close>

datatype item = Lit string | WsStar | WsPlus | HexGroup

text \<open>\<open>backtrack lo k f\<close> tries the lengths \<open>k\<close>, \<open>k - 1\<close>, ... down to \<open>lo\<close>.\<close>

fun backtrack :: "nat \<Rightarrow> nat \<Rightarrow> (nat \<Rightarrow> 'a option) \<Rightarrow> 'a option" where
  "backtrack lo 0 f = (if lo = 0 then f 0 else None)"
| "backtrack lo (Suc k) f =
     (if Suc k < lo then None
      else (case f (Suc k) of Some r \<Rightarrow> Some r | None \<Rightarrow> backtrack lo k f))"

text \<open>A match attempt at the start of \<open>s\<close>; the result is the list of captured groups.\<close>

primrec match_items :: "item list \<Rightarrow> string \<Rightarrow> string list option" where
  "match_items [] s = Some []"
| "match_items (it # its) s =
     (case it of
        Lit l \<Rightarrow> if startsWith s l then match_items its (drop (length l) s) else None
      | WsStar \<Rightarrow>
          backtrack 0 (length (takeWhile isWhiteSpace s)) (\<lambda>n. match_items its (drop n s))
      | WsPlus \<Rightarrow>
          backtrack 1 (length (takeWhile isWhiteSpace s)) (\<lambda>n. match_items its (drop n s))
      | HexGroup \<Rightarrow>
          backtrack 1 (length (takeWhile isHexDigit s))
            (\<lambda>n. map_option ((#) (take n s)) (match_items its (drop n s))))"

text \<open>
  \<open>String.prototype.match\<close> with a regular expression without the \<open>g\<close> flag: the first
  index, from the left, at which the attempt succeeds (the end of the string is tried
  last); \<open>None\<close> is \<open>null\<close>.
\<close>

fun js_match :: "item list \<Rightarrow> string \<Rightarrow> string list option" where
  "js_match p [] = match_items p []"
| "js_match p (c # s) =
     (case match_items p (c # s) of Some caps \<Rightarrow> Some caps | None \<Rightarrow> js_match p s)"

text \<open>\<open>\s*=\s*toNumbers\s*\(\s*"([a-fA-F0-9]+)"\s*\)\<close>, the tail shared by all bindings.\<close>

definition toNumbersCall :: "item list" where
  "toNumbersCall =
     [WsStar, Lit ''='', WsStar, Lit ''toNumbers'', WsStar, Lit ''('', WsStar,
      Lit [CHR 0x22], HexGroup, Lit [CHR 0x22], WsStar, Lit '')'']"

text \<open>\<open>var\s+x\s*=\s*toNumbers\s*\(\s*"([a-fA-F0-9]+)"\s*\)\<close> for \<open>x\<close> one of a, b, c.\<close>

definition varPattern :: "string \<Rightarrow> item list" where
  "varPattern x = [Lit ''var'', WsPlus, Lit x] @ toNumbersCall"

text \<open>The alternative pattern: one declaration, the three bindings joined by commas.\<close>

definition allPattern :: "item list" where
  "allPattern =
     varPattern ''a'' @ [WsStar, Lit '','', WsStar, Lit ''b''] @ toNumbersCall @
     [WsStar, Lit '','', WsStar, Lit ''c''] @ toNumbersCall"

record encrypted =
  enc_a :: string
  enc_b :: string
  enc_c :: string

text \<open>
  \<open>extractEncryptedValues\<close>.  A match of a one-group pattern has one capture and a match
  of the alternative pattern has three, so the default cases only stand for \<open>null\<close>.
\<close>

definition extractEncryptedValues :: "string \<Rightarrow> encrypted option" where
  "extractEncryptedValues html =
     (let aMatch = js_match (varPattern ''a'') html;
          bMatch = js_match (varPattern ''b'') html;
          cMatch = js_match (varPattern ''c'') html
      in case (aMatch, bMatch, cMatch) of
           (Some [a], Some [b], Some [c]) \<Rightarrow> Some \<lparr>enc_a = a, enc_b = b, enc_c = c\<rparr>
         | _ \<Rightarrow>
           (case js_match allPattern html of
              Some [a, b, c] \<Rightarrow> Some \<lparr>enc_a = a, enc_b = b, enc_c = c\<rparr>
            | _ \<Rightarrow> None))"

section \<open>Requests, responses, errors and the injected client\<close>

text \<open>
  A body (\<open>response.data\<close>, \<open>request.data\<close>) is a string or some other value; of a value
  that is not a string the code only observes its truthiness and its conversion
  \<open>String(data)\<close>, which \<open>BOther\<close> carries.
\<close>

datatype body = BString string | BOther bool string

fun truthy_body :: "body \<Rightarrow> bool" where
  "truthy_body (BString s) = (s \<noteq> [])"
| "truthy_body (BOther t s) = t"

fun String_body :: "body \<Rightarrow> string" where
  "String_body (BString s) = s"
| "String_body (BOther t s) = s"

text \<open>
  The request descriptor (the axios config).  An absent \<open>url\<close> or \<open>baseURL\<close> is \<open>None\<close>;
  the headers object is a map from header names to values (an absent headers object is
  the empty map, as the object spread treats it).  A response is an axios response: it
  always has its \<open>config\<close>.
\<close>

record request =
  req_url :: "string option"
  req_baseURL :: "string option"
  req_method :: string
  req_data :: body
  req_headers :: "string \<rightharpoonup> string"

record response =
  resp_data :: body
  resp_status :: nat
  resp_headers :: "string \<rightharpoonup> string"
  resp_config :: request

text \<open>A thrown value: its \<open>message\<close> text and, for a transport error, the response it carries.\<close>

datatype js_error = Error (err_message: string) (err_response: "response option")

text \<open>Truthiness of an optional string: \<open>undefined\<close> and the empty string are falsy.\<close>

fun truthy :: "string option \<Rightarrow> bool" where
  "truthy None = False"
| "truthy (Some s) = (s \<noteq> [])"

text \<open>
  The object the fetched script defines.  \<open>decrypt(ciphertext, mode, key, iv)\<close> returns an
  array of numbers or throws; a property that is absent or no function is \<open>None\<close>.
\<close>

type_synonym decrypt_fn =
  "js_number list \<Rightarrow> nat \<Rightarrow> js_number list \<Rightarrow> js_number list \<Rightarrow> js_error + js_number list"

record mode_object =
  mo_decrypt :: "decrypt_fn option"

record aes_object =
  aes_decrypt :: "decrypt_fn option"
  aes_modeOfOperation :: "mode_object option"

definition empty_object :: aes_object where
  "empty_object = \<lparr>aes_decrypt = None, aes_modeOfOperation = None\<rparr>"

text \<open>
  The platform: the \<open>URL\<close> class, the serializer behind \<open>url.search\<close>, and the evaluation
  of \<open>new Function('slowAES', code)(slowAES)\<close> on a fresh empty object.
  \<^item> \<open>new_URL input base\<close> is \<open>None\<close> when the constructor throws.
  \<^item> \<open>run_Function code\<close> throws, or returns the value the function returns (\<open>None\<close> for
    a value that is no object) together with the final state of the object passed in,
    which is the loader's own \<open>slowAES\<close>: a script that declares \<open>var slowAES = ...\<close>
    rebinds the parameter and leaves that object empty, a script that assigns properties
    to \<open>slowAES\<close> changes it.
\<close>

record url_object =
  protocol :: string
  host :: string
  pathname :: string
  searchParams :: "(string \<times> string) list"

record platform =
  new_URL :: "string \<Rightarrow> string option \<Rightarrow> url_object option"
  serialize :: "(string \<times> string) list \<Rightarrow> string"
  run_Function :: "string \<Rightarrow> js_error + (aes_object option \<times> aes_object)"

text \<open>
  The injected client: \<open>client.defaults?.baseURL\<close>, \<open>client.get(path, {baseURL,
  responseType: 'text'})\<close> and \<open>client.request(config)\<close>.  A call answers with a response
  or throws.  Every call on the client, every call of the solver and every line written
  to the console is recorded as an event, in order.
\<close>

record client =
  defaults_baseURL :: "string option"
  client_get :: "string \<Rightarrow> string \<Rightarrow> js_error + response"
  client_request :: "request \<Rightarrow> js_error + response"

datatype event = Get string string | Request request | Solve response | ConsoleError js_error

fun is_Request :: "event \<Rightarrow> bool" where
  "is_Request (Request cfg) = True"
| "is_Request _ = False"

fun is_Get :: "event \<Rightarrow> bool" where
  "is_Get (Get path base) = True"
| "is_Get _ = False"

fun is_Solve :: "event \<Rightarrow> bool" where
  "is_Solve (Solve r) = True"
| "is_Solve _ = False"

section \<open>\<open>detectCookieChallenge\<close>\<close>

text \<open>The argument is \<open>None\<close> for a \<open>null\<close> or \<open>undefined\<close> response.\<close>

definition detectCookieChallenge :: "response option \<Rightarrow> bool" where
  "detectCookieChallenge response =
     (case response of
        None \<Rightarrow> False
      | Some r \<Rightarrow>
          if \<not> truthy_body (resp_data r) then False
          else
            let data = (case resp_data r of BString s \<Rightarrow> s | BOther t s \<Rightarrow> []);
                hasSlowAES = includes_str data ''slowAES.decrypt'';
                hasTestCookie = includes_str data ''__test='';
                hasLocationRedirect = includes_str data ''location.href'';
                hasAesJs = includes_str data ''/aes.js''
            in hasSlowAES \<and> hasTestCookie \<and> hasLocationRedirect \<and> hasAesJs)"

section \<open>\<open>loadSlowAES\<close>\<close>

text \<open>The source text handed to \<open>new Function\<close>: the template around the fetched script.\<close>

definition loaderCode :: "string \<Rightarrow> string" where
  "loaderCode script =
     [CHR 0x0A] @ ''      '' @ script @ [CHR 0x0A] @
     ''      return typeof slowAES !== 'undefined' ? slowAES : {};'' @ [CHR 0x0A] @ ''    ''"

definition loadSlowAES ::
    "platform \<Rightarrow> client \<Rightarrow> string \<Rightarrow> (js_error + aes_object) \<times> event list" where
  "loadSlowAES env client baseURL =
     (case client_get client ''/aes.js'' baseURL of
        Inl error \<Rightarrow>
          (Inl (Error (''Failed to load slowAES: '' @ err_message error) None),
           [Get ''/aes.js'' baseURL])
      | Inr response \<Rightarrow>
          (case run_Function env (loaderCode (String_body (resp_data response))) of
             Inl error \<Rightarrow>
               (Inl (Error (''Failed to load slowAES: '' @ err_message error) None),
                [Get ''/aes.js'' baseURL])
           | Inr (result, slowAES) \<Rightarrow>
               (Inr (case result of
                       None \<Rightarrow> slowAES
                     | Some r \<Rightarrow> if aes_decrypt r \<noteq> None then r else slowAES),
                [Get ''/aes.js'' baseURL])))"

section \<open>\<open>processCookieChallenge\<close>\<close>

text \<open>
  The block that determines \<open>baseURL\<close>: the client's default, else (only when the request
  has a url) \<open>protocol//host\<close> of the url parsed without a base, else, when that parse
  throws, the request's own \<open>baseURL\<close>; a falsy outcome throws.
\<close>

definition noBaseURL :: js_error where
  "noBaseURL = Error ''Could not determine base URL for slowAES loading'' None"

definition resolveBaseURL :: "platform \<Rightarrow> client \<Rightarrow> request \<Rightarrow> js_error + string" where
  "resolveBaseURL env client originalRequest =
     (let baseURL0 = defaults_baseURL client;
          assigned =
            (if \<not> truthy baseURL0 \<and> truthy (req_url originalRequest) then
               (case new_URL env (case req_url originalRequest of Some u \<Rightarrow> u | None \<Rightarrow> []) None of
                  Some url \<Rightarrow> Inr (Some (protocol url @ ''//'' @ host url))
                | None \<Rightarrow>
                    if truthy (req_baseURL originalRequest)
                    then Inr (req_baseURL originalRequest)
                    else Inl noBaseURL)
             else Inr baseURL0)
      in case assigned of
           Inl error \<Rightarrow> Inl error
         | Inr baseURL \<Rightarrow>
             (case baseURL of
                None \<Rightarrow> Inl noBaseURL
              | Some b \<Rightarrow> if b = [] then Inl noBaseURL else Inr b))"

text \<open>The decrypt function the solver calls: \<open>slowAES.decrypt\<close>, else \<open>slowAES.modeOfOperation.decrypt\<close>.\<close>

definition selectDecrypt :: "aes_object \<Rightarrow> decrypt_fn option" where
  "selectDecrypt slowAES =
     (case aes_decrypt slowAES of
        Some f \<Rightarrow> Some f
      | None \<Rightarrow>
          (case aes_modeOfOperation slowAES of
             Some m \<Rightarrow> mo_decrypt m
           | None \<Rightarrow> None))"

text \<open>
  \<open>URLSearchParams.set\<close>: the first tuple of that name takes the value and the other
  tuples of that name are removed; without such a tuple a new one is appended.
\<close>

fun searchParams_set :: "string \<Rightarrow> string \<Rightarrow> (string \<times> string) list \<Rightarrow> (string \<times> string) list" where
  "searchParams_set name v [] = [(name, v)]"
| "searchParams_set name v ((k, w) # ps) =
     (if k = name then (name, v) # filter (\<lambda>(k', w'). k' \<noteq> name) ps
      else (k, w) # searchParams_set name v ps)"

text \<open>\<open>url.search\<close>: the serialized query after a question mark, or empty.\<close>

definition url_search :: "string \<Rightarrow> string" where
  "url_search query = (if query = [] then [] else ''?'' @ query)"

text \<open>The block that builds \<open>retryUrl\<close>.\<close>

definition buildRetryUrl :: "platform \<Rightarrow> request \<Rightarrow> string \<Rightarrow> string" where
  "buildRetryUrl env originalRequest baseURL =
     (let originalUrl = (if truthy (req_url originalRequest)
                         then (case req_url originalRequest of Some u \<Rightarrow> u | None \<Rightarrow> [])
                         else [])
      in case new_URL env originalUrl (Some baseURL) of
           Some url \<Rightarrow>
             pathname url @ url_search (serialize env (searchParams_set ''i'' ''1'' (searchParams url)))
         | None \<Rightarrow>
             originalUrl @ (if includes_str originalUrl ''?'' then ''&'' else ''?'') @ ''i=1'')"

definition processCookieChallenge ::
    "platform \<Rightarrow> response \<Rightarrow> client \<Rightarrow> (js_error + response) \<times> event list" where
  "processCookieChallenge env response client =
     (let originalRequest = resp_config response;
          html = String_body (resp_data response)
      in case extractEncryptedValues html of
           None \<Rightarrow> (Inl (Error ''Could not extract encrypted values from challenge'' None), [])
         | Some encrypted \<Rightarrow>
             (case resolveBaseURL env client originalRequest of
                Inl error \<Rightarrow> (Inl error, [])
              | Inr baseURL \<Rightarrow>
                  (case loadSlowAES env client baseURL of
                     (Inl error, evs) \<Rightarrow> (Inl error, evs)
                   | (Inr slowAES, evs) \<Rightarrow>
                       (let a = toNumbers (enc_a encrypted);
                            b = toNumbers (enc_b encrypted);
                            c = toNumbers (enc_c encrypted)
                        in case selectDecrypt slowAES of
                             None \<Rightarrow> (Inl (Error ''slowAES.decrypt function not found'' None), evs)
                           | Some decrypt \<Rightarrow>
                               (case decrypt c 2 a b of
                                  Inl error \<Rightarrow> (Inl error, evs)
                                | Inr decrypted \<Rightarrow>
                                    (let cookieValue = toHex decrypted;
                                         retryUrl = buildRetryUrl env originalRequest baseURL;
                                         retryConfig = originalRequest
                                           \<lparr>req_url := Some retryUrl,
                                            req_headers := (req_headers originalRequest)
                                              (''Cookie'' \<mapsto> ''__test='' @ cookieValue)\<rparr>
                                     in (client_request client retryConfig,
                                         evs @ [Request retryConfig])))))))"

section \<open>\<open>createCookieChallengeInterceptor\<close> and \<open>createAxiosClient\<close>\<close>

type_synonym handler = "response \<Rightarrow> (js_error + response) \<times> event list"

text \<open>
  The handler the factory returns, applied to a response.  The call of \<open>processFn\<close> is the
  event \<open>Solve\<close>; \<open>console.error\<close> is the event \<open>ConsoleError\<close>.
\<close>

definition createCookieChallengeInterceptor ::
    "client \<Rightarrow> (response \<Rightarrow> bool) \<Rightarrow> (response \<Rightarrow> client \<Rightarrow> (js_error + response) \<times> event list)
      \<Rightarrow> handler" where
  "createCookieChallengeInterceptor client detectFn processFn response =
     (let isChallenge = detectFn response
      in if isChallenge then
           (case processFn response client of
              (Inr processedResponse, evs) \<Rightarrow> (Inr processedResponse, Solve response # evs)
            | (Inl error, evs) \<Rightarrow> (Inl error, Solve response # evs @ [ConsoleError error]))
         else (Inr response, []))"

text \<open>The factory with its default arguments.\<close>

definition defaultInterceptor :: "platform \<Rightarrow> client \<Rightarrow> handler" where
  "defaultInterceptor env client =
     createCookieChallengeInterceptor client (\<lambda>r. detectCookieChallenge (Some r))
       (processCookieChallenge env)"

text \<open>
  \<open>createAxiosClient\<close> registers two handlers with \<open>client.interceptors.response.use\<close>;
  the model returns them.  \<open>client\<close> stands for \<open>axios.create(config)\<close>.
\<close>

record response_interceptors =
  onFulfilled :: handler
  onRejected :: "js_error \<Rightarrow> (js_error + response) \<times> event list"

definition createAxiosClient ::
    "platform \<Rightarrow> client \<Rightarrow> handler option \<Rightarrow> response_interceptors" where
  "createAxiosClient env client challengeHandler =
     (let cookieChallengeInterceptor =
            (case challengeHandler of Some h \<Rightarrow> h | None \<Rightarrow> defaultInterceptor env client)
      in \<lparr>onFulfilled = cookieChallengeInterceptor,
          onRejected = (\<lambda>error.
            case err_response error of
              Some r \<Rightarrow>
                (case cookieChallengeInterceptor r of
                   (Inr processedResponse, evs) \<Rightarrow> (Inr processedResponse, evs)
                 | (Inl processError, evs) \<Rightarrow> (Inl error, evs))
            | None \<Rightarrow> (Inl error, []))\<rparr>)"

section \<open>The instance that \<open>createAxiosClient\<close> returns\<close>

text \<open>
  \<open>createAxiosClient\<close> registers the two handlers on the instance it creates and hands
  that same instance to the solver.  An axios instance runs its response handlers on the
  outcome of every request made through it, also of the requests that a handler makes:
  \<open>client.get\<close> and \<open>client.request\<close> of the solver come back through the handlers.
  \<open>transport\<close> is the adapter below the handlers: it answers a request descriptor with
  a response or with an error (which carries the response when the status is refused).

  The nesting is bounded by fuel.  \<open>instanceRun n\<close> is \<open>None\<close> when the request has not
  returned within \<open>n\<close> levels; otherwise it is the outcome the caller receives, with the
  requests sent to the transport, in order.  A run returns when every call it made on the
  instance has returned one level below.
\<close>

text \<open>The descriptor of \<open>client.get(path, {baseURL, responseType: 'text'})\<close>.\<close>

definition getConfig :: "string \<Rightarrow> string \<Rightarrow> request" where
  "getConfig path base =
     \<lparr>req_url = Some path, req_baseURL = Some base, req_method = ''get'',
      req_data = BOther False ''undefined'', req_headers = Map.empty\<rparr>"

text \<open>The request that an event of a run made on the instance, if it made one.\<close>

fun event_request :: "event \<Rightarrow> request option" where
  "event_request (Get path base) = Some (getConfig path base)"
| "event_request (Request cfg) = Some cfg"
| "event_request (Solve r) = None"
| "event_request (ConsoleError e) = None"

text \<open>
  What a call on the instance gives its caller.  A call that has not returned gives
  nothing; the place-holder error stands for it, and the run that made the call has not
  returned either.
\<close>

definition unreturned :: js_error where
  "unreturned = Error ''(the call has not returned)'' None"

fun answer :: "((js_error + response) \<times> request list) option \<Rightarrow> js_error + response" where
  "answer None = Inl unreturned"
| "answer (Some (res, w)) = res"

definition clientOver ::
    "string option \<Rightarrow> (request \<Rightarrow> ((js_error + response) \<times> request list) option) \<Rightarrow> client" where
  "clientOver base0 run =
     \<lparr>defaults_baseURL = base0,
      client_get = (\<lambda>path base. answer (run (getConfig path base))),
      client_request = (\<lambda>config. answer (run config))\<rparr>"

fun collect :: "'a list option list \<Rightarrow> 'a list option" where
  "collect [] = Some []"
| "collect (None # xs) = None"
| "collect (Some w # xs) = (case collect xs of None \<Rightarrow> None | Some ws \<Rightarrow> Some (w @ ws))"

primrec instanceRun ::
    "nat \<Rightarrow> platform \<Rightarrow> string option \<Rightarrow> (request \<Rightarrow> js_error + response) \<Rightarrow> request
      \<Rightarrow> ((js_error + response) \<times> request list) option" where
  "instanceRun 0 env base0 transport config = None"
| "instanceRun (Suc n) env base0 transport config =
     (let client = clientOver base0 (instanceRun n env base0 transport);
          handlers = createAxiosClient env client None;
          (res, evs) = (case transport config of
                          Inr response \<Rightarrow> onFulfilled handlers response
                        | Inl error \<Rightarrow> onRejected handlers error)
      in case collect (map (\<lambda>ev. case event_request ev of
                                    None \<Rightarrow> Some []
                                  | Some c \<Rightarrow> map_option snd (instanceRun n env base0 transport c))
                        evs) of
           None \<Rightarrow> None
         | Some w \<Rightarrow> Some (res, config # w))"

section \<open>Example inputs\<close>

text \<open>
  A challenge page in the comma-joined layout, with the four markers of the detector and
  the parameters of the repository's test; a request with a header and a cookie of its
  own; the response that carries the page.
\<close>

definition challengeHtml :: string where
  "challengeHtml =
     ''<html><body><script>var a=toNumbers('' @ [CHR 0x22] @ ''f655ba9d09a112d4968c63579db590b4'' @
     [CHR 0x22] @ ''),b=toNumbers('' @ [CHR 0x22] @ ''98344c2eee86c3994890592585b49f80'' @
     [CHR 0x22] @ ''),c=toNumbers('' @ [CHR 0x22] @ ''fdd9f8ac7a55834004f21a883ac3e49e'' @
     [CHR 0x22] @ '');document.cookie='' @ [CHR 0x22] @ ''__test='' @ [CHR 0x22] @
     ''+toHex(slowAES.decrypt(c,2,a,b));location.href='' @ [CHR 0x22] @ ''/test.php?i=1'' @
     [CHR 0x22] @ '';</script><script src='' @ [CHR 0x22] @ ''/aes.js'' @ [CHR 0x22] @
     ''></script></body></html>''"

definition exampleRequest :: request where
  "exampleRequest =
     \<lparr>req_url = Some ''/test.php?x=1'', req_baseURL = Some ''https://example.com'',
      req_method = ''get'', req_data = BOther False ''undefined'',
      req_headers = [''Accept'' \<mapsto> ''application/json'', ''Cookie'' \<mapsto> ''session=abc'']\<rparr>"

definition challengeResponse :: response where
  "challengeResponse =
     \<lparr>resp_data = BString challengeHtml, resp_status = 200, resp_headers = Map.empty,
      resp_config = exampleRequest\<rparr>"

text \<open>An ordinary response: a JSON body, already parsed to an object.\<close>

definition jsonResponse :: response where
  "jsonResponse =
     \<lparr>resp_data = BOther True ''[object Object]'', resp_status = 200,
      resp_headers = Map.empty, resp_config = exampleRequest\<rparr>"

text \<open>
  Scripts that an origin may serve at \<open>/aes.js\<close>: one that defines \<open>slowAES\<close> with a
  \<open>decrypt\<close> function of its own, one that defines an object without any function, one
  that attaches \<open>modeOfOperation.decrypt\<close> to the object it is given, one that rebinds
  \<open>slowAES\<close> to an object with only \<open>modeOfOperation.decrypt\<close>, one that does not
  compile, one whose \<open>decrypt\<close> returns the ciphertext it is given, and one whose
  \<open>decrypt\<close> throws.  The decrypt functions of the other scripts return the bytes 1
  and 171.
\<close>

definition directScript :: string where
  "directScript = ''var slowAES = {decrypt: function (c, m, k, iv) { return [1, 171]; }};''"

definition blankScript :: string where
  "blankScript = ''var slowAES = {};''"

definition attachScript :: string where
  "attachScript =
     ''slowAES.modeOfOperation = {decrypt: function (c, m, k, iv) { return [1, 171]; }};''"

definition rebindScript :: string where
  "rebindScript =
     ''var slowAES = {modeOfOperation: {decrypt: function (c, m, k, iv) { return [1, 171]; }}};''"

definition brokenScript :: string where
  "brokenScript = ''var slowAES = {''"

definition echoScript :: string where
  "echoScript = ''var slowAES = {decrypt: function (c, m, k, iv) { return c; }};''"

definition throwingScript :: string where
  "throwingScript =
     ''var slowAES = {decrypt: function (c, m, k, iv) { throw new Error('' @ [CHR 0x22] @
     ''Invalid key size'' @ [CHR 0x22] @ ''); }};''"

text \<open>The response to the fetch of the decryption routine, for a given script.\<close>

definition scriptResponse :: "string \<Rightarrow> response" where
  "scriptResponse script =
     \<lparr>resp_data = BString script, resp_status = 200, resp_headers = Map.empty,
      resp_config = \<lparr>req_url = Some ''/aes.js'', req_baseURL = Some ''https://example.com'',
        req_method = ''get'', req_data = BOther False ''undefined'',
        req_headers = Map.empty\<rparr>\<rparr>"

text \<open>
  The platform of the examples.  \<open>new URL\<close> knows the relative url of the example
  request against the one origin and throws otherwise; the serializer joins the tuples
  with \<open>=\<close> and \<open>&\<close>; the evaluation knows the scripts above: the first two, the
  fourth and the last two rebind the parameter and leave the object passed in empty, the
  third changes the object passed in and returns it, the fifth makes the template around
  it a syntax error at \<open>typeof\<close>, and so is anything else.  \<open>new URL\<close> also knows
  the url of the retry.
\<close>

fun joinParams :: "(string \<times> string) list \<Rightarrow> string" where
  "joinParams [] = []"
| "joinParams [(k, v)] = k @ ''='' @ v"
| "joinParams ((k, v) # p # ps) = k @ ''='' @ v @ ''&'' @ joinParams (p # ps)"

definition stubDecrypt :: decrypt_fn where
  "stubDecrypt ciphertext mode key iv = Inr [Num 1, Num 171]"

definition directObject :: aes_object where
  "directObject = \<lparr>aes_decrypt = Some stubDecrypt, aes_modeOfOperation = None\<rparr>"

definition nestedObject :: aes_object where
  "nestedObject =
     \<lparr>aes_decrypt = None, aes_modeOfOperation = Some \<lparr>mo_decrypt = Some stubDecrypt\<rparr>\<rparr>"

definition echoObject :: aes_object where
  "echoObject =
     \<lparr>aes_decrypt = Some (\<lambda>ciphertext mode key iv. Inr ciphertext), aes_modeOfOperation = None\<rparr>"

definition throwingDecrypt :: decrypt_fn where
  "throwingDecrypt ciphertext mode key iv = Inl (Error ''Invalid key size'' None)"

definition throwingObject :: aes_object where
  "throwingObject = \<lparr>aes_decrypt = Some throwingDecrypt, aes_modeOfOperation = None\<rparr>"

definition syntaxError :: js_error where
  "syntaxError = Error (''Unexpected token '' @ [CHR 0x27] @ ''typeof'' @ [CHR 0x27]) None"

definition examplePlatform :: platform where
  "examplePlatform =
     \<lparr>new_URL = (\<lambda>input base.
        if input = ''/test.php?x=1'' \<and> base = Some ''https://example.com''
        then Some \<lparr>protocol = ''https:'', host = ''example.com'', pathname = ''/test.php'',
                   searchParams = [(''x'', ''1'')]\<rparr>
        else if input = ''/test.php?x=1&i=1'' \<and> base = Some ''https://example.com''
        then Some \<lparr>protocol = ''https:'', host = ''example.com'', pathname = ''/test.php'',
                   searchParams = [(''x'', ''1''), (''i'', ''1'')]\<rparr>
        else None),
      serialize = joinParams,
      run_Function = (\<lambda>code.
        if code = loaderCode directScript then Inr (Some directObject, empty_object)
        else if code = loaderCode blankScript then Inr (Some empty_object, empty_object)
        else if code = loaderCode attachScript then Inr (Some nestedObject, nestedObject)
        else if code = loaderCode rebindScript then Inr (Some nestedObject, empty_object)
        else if code = loaderCode echoScript then Inr (Some echoObject, empty_object)
        else if code = loaderCode throwingScript then Inr (Some throwingObject, empty_object)
        else Inl syntaxError)\<rparr>"

text \<open>
  Clients for the examples.  \<open>servingClient script\<close> has a default origin, answers the
  fetch of the routine with the script and the retry with the JSON response;
  \<open>exampleClient\<close> serves the first script.  The others differ from it in one point:
  one answers the retry with the challenge page again, one fails to fetch the routine,
  one has no default origin.
\<close>

definition servingClient :: "string \<Rightarrow> client" where
  "servingClient script =
     \<lparr>defaults_baseURL = Some ''https://example.com'',
      client_get = (\<lambda>path base. Inr (scriptResponse script)),
      client_request = (\<lambda>config. Inr jsonResponse)\<rparr>"

definition exampleClient :: client where
  "exampleClient = servingClient directScript"

definition challengingClient :: client where
  "challengingClient = exampleClient\<lparr>client_request := (\<lambda>config. Inr challengeResponse)\<rparr>"

definition offlineClient :: client where
  "offlineClient =
     exampleClient\<lparr>client_get := (\<lambda>path base. Inl (Error ''Network Error'' None))\<rparr>"

definition bareClient :: client where
  "bareClient = exampleClient\<lparr>defaults_baseURL := None\<rparr>"

text \<open>The retry request that the solver builds from the example request on the example platform.\<close>

definition exampleRetry :: request where
  "exampleRetry =
     exampleRequest
       \<lparr>req_url := Some ''/test.php?x=1&i=1'',
        req_headers := (req_headers exampleRequest)(''Cookie'' \<mapsto> ''__test=01ab'')\<rparr>"

text \<open>
  The challenge response of a request that has no url of its own, only its own base
  (as \<open>client.request({baseURL: 'https://example.com'})\<close> makes it).
\<close>

definition urllessResponse :: response where
  "urllessResponse = challengeResponse\<lparr>resp_config := exampleRequest\<lparr>req_url := None\<rparr>\<rparr>"

text \<open>
  An origin behind the instance of \<open>createAxiosClient\<close> that challenges twice.  It serves
  the echoing script at \<open>/aes.js\<close>.  It answers a request with the cookie
  \<open>__test=0b\<close> with the JSON body, a request with the cookie \<open>__test=0a\<close> with a
  challenge page whose ciphertext is \<open>0b\<close>, and any other request with a challenge
  page whose ciphertext is \<open>0a\<close>.  Each response carries the request it answers.
\<close>

definition pageWith :: "string \<Rightarrow> string" where
  "pageWith c =
     ''<script>var a=toNumbers('' @ [CHR 0x22] @ ''00'' @ [CHR 0x22] @ ''),b=toNumbers('' @
     [CHR 0x22] @ ''00'' @ [CHR 0x22] @ ''),c=toNumbers('' @ [CHR 0x22] @ c @ [CHR 0x22] @
     '');document.cookie='' @ [CHR 0x22] @ ''__test='' @ [CHR 0x22] @
     ''+toHex(slowAES.decrypt(c,2,a,b));location.href='' @ [CHR 0x22] @ ''/test.php?i=1'' @
     [CHR 0x22] @ '';</script><script src='' @ [CHR 0x22] @ ''/aes.js'' @ [CHR 0x22] @
     ''></script>''"

definition answerWith :: "body \<Rightarrow> request \<Rightarrow> response" where
  "answerWith b config =
     \<lparr>resp_data = b, resp_status = 200, resp_headers = Map.empty, resp_config = config\<rparr>"

definition repeatingTransport :: "request \<Rightarrow> js_error + response" where
  "repeatingTransport config =
     (if req_url config = Some ''/aes.js'' then Inr (answerWith (BString echoScript) config)
      else if req_headers config ''Cookie'' = Some ''__test=0b''
      then Inr (answerWith (BOther True ''[object Object]'') config)
      else if req_headers config ''Cookie'' = Some ''__test=0a''
      then Inr (answerWith (BString (pageWith ''0b'')) config)
      else Inr (answerWith (BString (pageWith ''0a'')) config))"

text \<open>An origin that answers every request but the fetch of the routine with a challenge page.\<close>

definition relentlessTransport :: "request \<Rightarrow> js_error + response" where
  "relentlessTransport config =
     (if req_url config = Some ''/aes.js'' then Inr (answerWith (BString echoScript) config)
      else Inr (answerWith (BString (pageWith ''0a'')) config))"

text \<open>
  An origin that answers with a challenge page, behind a network that loses the fetch of
  the routine; and the same origin sending the page with status 503, which the transport
  turns into an error that carries the response.
\<close>

definition offlineTransport :: "request \<Rightarrow> js_error + response" where
  "offlineTransport config =
     (if req_url config = Some ''/aes.js'' then Inl (Error ''Network Error'' None)
      else Inr (answerWith (BString (pageWith ''0a'')) config))"

definition unavailable :: "request \<Rightarrow> js_error" where
  "unavailable config =
     Error ''Request failed with status code 503''
       (Some ((answerWith (BString (pageWith ''0a'')) config)\<lparr>resp_status := 503\<rparr>))"

definition failingTransport :: "request \<Rightarrow> js_error + response" where
  "failingTransport config =
     (if req_url config = Some ''/aes.js'' then Inl (Error ''Network Error'' None)
      else Inl (unavailable config))"

text \<open>The two retry requests that follow the example request at the origin that challenges twice.\<close>

definition firstRetry :: request where
  "firstRetry =
     exampleRequest
       \<lparr>req_url := Some ''/test.php?x=1&i=1'',
        req_headers := (req_headers exampleRequest)(''Cookie'' \<mapsto> ''__test=0a'')\<rparr>"

definition secondRetry :: request where
  "secondRetry =
     exampleRequest
       \<lparr>req_url := Some ''/test.php?x=1&i=1'',
        req_headers := (req_headers exampleRequest)(''Cookie'' \<mapsto> ''__test=0b'')\<rparr>"

section \<open>Notions of the specification\<close>

text \<open>A marker occurs in a body: the body is some text, the marker, and some text.\<close>

definition occurs_in :: "string \<Rightarrow> string \<Rightarrow> bool" where
  "occurs_in m s = (\<exists>u v. s = u @ m @ v)"

text \<open>The number of retry requests among the events of a run.\<close>

definition retries :: "event list \<Rightarrow> nat" where
  "retries evs = length (filter is_Request evs)"

subsection \<open>The two layouts of a challenge page\<close>

text \<open>
  A value is a non-empty string of hexadecimal digits.  The optional white space of a
  declaration is a \<open>spacing\<close>: the white space after \<open>var\<close> (at least one character),
  after the name, after \<open>=\<close>, after \<open>toNumbers\<close>, after the opening parenthesis, before
  the closing one, and before and after the comma of the comma-joined layout.
\<close>

definition isHexString :: "string \<Rightarrow> bool" where
  "isHexString v = (v \<noteq> [] \<and> list_all isHexDigit v)"

record spacing =
  sp_var :: string
  sp_name :: string
  sp_eq :: string
  sp_fn :: string
  sp_open :: string
  sp_close :: string
  sp_before_comma :: string
  sp_after_comma :: string

definition spacing_ok :: "spacing \<Rightarrow> bool" where
  "spacing_ok sp =
     (sp_var sp \<noteq> [] \<and> list_all isWhiteSpace (sp_var sp) \<and> list_all isWhiteSpace (sp_name sp) \<and>
      list_all isWhiteSpace (sp_eq sp) \<and> list_all isWhiteSpace (sp_fn sp) \<and>
      list_all isWhiteSpace (sp_open sp) \<and> list_all isWhiteSpace (sp_close sp) \<and>
      list_all isWhiteSpace (sp_before_comma sp) \<and> list_all isWhiteSpace (sp_after_comma sp))"

text \<open>
  The text \<open>= toNumbers("v")\<close>, the text \<open>x = toNumbers("v")\<close> and the text
  \<open>var x = toNumbers("v")\<close>.
\<close>

definition callText :: "spacing \<Rightarrow> string \<Rightarrow> string" where
  "callText sp v =
     sp_name sp @ ''='' @ sp_eq sp @ ''toNumbers'' @ sp_fn sp @ ''('' @ sp_open sp @
     [CHR 0x22] @ v @ [CHR 0x22] @ sp_close sp @ '')''"

definition bindingText :: "spacing \<Rightarrow> string \<Rightarrow> string \<Rightarrow> string" where
  "bindingText sp x v = x @ callText sp v"

definition declarationText :: "spacing \<Rightarrow> string \<Rightarrow> string \<Rightarrow> string" where
  "declarationText sp x v = ''var'' @ sp_var sp @ bindingText sp x v"

definition commaText :: "spacing \<Rightarrow> string" where
  "commaText sp = sp_before_comma sp @ '','' @ sp_after_comma sp"

text \<open>
  A page in the multi-statement layout: three declarations, with the texts \<open>pre\<close>,
  \<open>m1\<close>, \<open>m2\<close> and \<open>post\<close> around them.  A page in the comma-joined layout: one
  declaration with three bindings.
\<close>

definition multiLayout ::
    "spacing \<Rightarrow> string \<Rightarrow> string \<Rightarrow> string \<Rightarrow> string \<Rightarrow> string \<Rightarrow> string \<Rightarrow> string \<Rightarrow> string" where
  "multiLayout sp pre m1 m2 post va vb vc =
     pre @ declarationText sp ''a'' va @ m1 @ declarationText sp ''b'' vb @ m2 @
     declarationText sp ''c'' vc @ post"

definition singleLayout ::
    "spacing \<Rightarrow> string \<Rightarrow> string \<Rightarrow> string \<Rightarrow> string \<Rightarrow> string \<Rightarrow> string" where
  "singleLayout sp pre post va vb vc =
     pre @ declarationText sp ''a'' va @ commaText sp @ bindingText sp ''b'' vb @
     commaText sp @ bindingText sp ''c'' vc @ post"

text \<open>A text around the declarations declares none of the three variables itself.\<close>

definition declaration_free :: "string \<Rightarrow> bool" where
  "declaration_free t =
     (js_match (varPattern ''a'') t = None \<and> js_match (varPattern ''b'') t = None \<and>
      js_match (varPattern ''c'') t = None)"

text \<open>
  The binding \<open>x\s*=\s*toNumbers\s*\(\s*"([a-fA-F0-9]+)"\s*\)\<close> alone, as it stands in
  either layout: a value of \<open>x\<close> can be located only where this pattern matches.
\<close>

definition bindingPattern :: "string \<Rightarrow> item list" where
  "bindingPattern x = Lit x # toNumbersCall"

text \<open>An item cannot consume a given character.\<close>

fun avoids :: "char \<Rightarrow> item \<Rightarrow> bool" where
  "avoids ch (Lit l) = (ch \<notin> set l)"
| "avoids ch WsStar = (\<not> isWhiteSpace ch)"
| "avoids ch WsPlus = (\<not> isWhiteSpace ch)"
| "avoids ch HexGroup = (\<not> isHexDigit ch)"

text \<open>
  A text spelled after a pattern: one piece for each item, the piece of a literal being
  the literal, the piece of \<open>\s*\<close> white space, the piece of \<open>\s+\<close> white space of
  at least one character, the piece of the group a value; and the text after the piece of
  a quantified class does not go on with a character of the class.  \<open>groups\<close> are the
  pieces of the groups.
\<close>

fun fits :: "item \<Rightarrow> string \<Rightarrow> bool" where
  "fits (Lit l) t = (t = l)"
| "fits WsStar t = list_all isWhiteSpace t"
| "fits WsPlus t = (t \<noteq> [] \<and> list_all isWhiteSpace t)"
| "fits HexGroup t = isHexString t"

fun stops :: "item \<Rightarrow> string \<Rightarrow> bool" where
  "stops (Lit l) s = True"
| "stops WsStar s = (s = [] \<or> \<not> isWhiteSpace (hd s))"
| "stops WsPlus s = (s = [] \<or> \<not> isWhiteSpace (hd s))"
| "stops HexGroup s = (s = [] \<or> \<not> isHexDigit (hd s))"

fun spelled :: "item list \<Rightarrow> string list \<Rightarrow> string \<Rightarrow> bool" where
  "spelled [] [] rest = True"
| "spelled (it # p) (t # ts) rest =
     (fits it t \<and> stops it (concat ts @ rest) \<and> spelled p ts rest)"
| "spelled [] (t # ts) rest = False"
| "spelled (it # p) [] rest = False"

fun groups :: "item list \<Rightarrow> string list \<Rightarrow> string list" where
  "groups (HexGroup # p) (t # ts) = t # groups p ts"
| "groups (Lit l # p) (t # ts) = groups p ts"
| "groups (WsStar # p) (t # ts) = groups p ts"
| "groups (WsPlus # p) (t # ts) = groups p ts"
| "groups [] ts = []"
| "groups (it # p) [] = []"

text \<open>A spacing without optional white space, and one with white space everywhere.\<close>

definition compactSpacing :: spacing where
  "compactSpacing =
     \<lparr>sp_var = '' '', sp_name = [], sp_eq = [], sp_fn = [], sp_open = [], sp_close = [],
      sp_before_comma = [], sp_after_comma = []\<rparr>"

definition wideSpacing :: spacing where
  "wideSpacing =
     \<lparr>sp_var = ''  '', sp_name = '' '', sp_eq = '' '', sp_fn = '' '', sp_open = '' '',
      sp_close = '' '', sp_before_comma = '' '', sp_after_comma = [CHR 0x0A]\<rparr>"

section \<open>Hexadecimal encoding and decoding\<close>

lemma nibble_cases:
  "d < 16 \<Longrightarrow> d = 0 \<or> d = 1 \<or> d = 2 \<or> d = 3 \<or> d = 4 \<or> d = 5 \<or> d = 6 \<or> d = 7 \<or> d = 8 \<or>
     d = 9 \<or> d = 10 \<or> d = 11 \<or> d = 12 \<or> d = 13 \<or> d = 14 \<or> d = (15::nat)"
  by arith

lemma hexChar_props:
  assumes "d < 16"
  shows "isHexDigit (hexChar d)" and "digitValue (hexChar d) = d"
    and "\<not> isWhiteSpace (hexChar d)" and "\<not> isLineTerminator (hexChar d)"
    and "hexChar d \<noteq> CHR ''+''" and "hexChar d \<noteq> CHR ''-''"
    and "hexChar d \<noteq> CHR ''x''" and "hexChar d \<noteq> CHR ''X''"
    and "toLowerChar (hexChar d) = hexChar d"
    and "hexChar d \<in> set ''0123456789abcdef''"
  using nibble_cases [OF assms]
  by (auto simp: hexChar_def isHexDigit_def digitValue_def isWhiteSpace_def
      isLineTerminator_def toLowerChar_def char_of_eq_iff take_bit_eq_mod)

lemma parseInt16_pair:
  assumes "h < 16" "l < 16"
  shows "parseInt16 [hexChar h, hexChar l] = Num (int (16 * h + l))"
  using hexChar_props [OF assms(1)] hexChar_props [OF assms(2)]
  by (simp add: parseInt16_def hexValue_def Let_def)

lemma toHex_loop_acc:
  "toHex_loop xs acc =
     acc @ concat (map (\<lambda>x. (if lessThan16 x then ''0'' else '''') @ toString16 x) xs)"
  by (induction xs arbitrary: acc) simp_all

lemma hexChar_0: "hexChar 0 = CHR ''0''"
  by (simp add: hexChar_def char_of_eq_iff take_bit_eq_mod)

lemma byte_digits:
  assumes "0 \<le> x" "x \<le> 255"
  shows "(if lessThan16 (Num x) then ''0'' else '''') @ toString16 (Num x) = byteHex x"
proof (cases "x < 16")
  case True
  with assms have "nat x < 16" "nat x div 16 = 0" "nat x mod 16 = nat x"
    by auto
  with assms True show ?thesis
    by (simp add: hexDigits.simps [of "nat x"] hexChar_0 byteHex_def)
next
  case False
  with assms have "nat x div 16 < 16" "\<not> nat x < 16"
    by auto
  with assms False show ?thesis
    by (simp add: hexDigits.simps [of "nat x"] hexDigits.simps [of "nat x div 16"] byteHex_def)
qed

lemma toLowerCase_byteHex:
  assumes "0 \<le> x" "x \<le> 255"
  shows "toLowerCase (byteHex x) = byteHex x"
proof -
  from assms have d: "nat x div 16 < 16" "nat x mod 16 < 16"
    by auto
  show ?thesis
    using hexChar_props(9) [OF d(1)] hexChar_props(9) [OF d(2)]
    by (simp add: toLowerCase_def byteHex_def)
qed

lemma toHex_bytes:
  assumes "\<forall>x\<in>set b. 0 \<le> x \<and> x \<le> 255"
  shows "toHex (map Num b) = concat (map byteHex b)"
  using assms
proof (induction b)
  case Nil
  show ?case by (simp add: toHex_def toLowerCase_def)
next
  case (Cons x b)
  then have x: "0 \<le> x" "x \<le> 255" and b: "toHex (map Num b) = concat (map byteHex b)"
    by simp_all
  have "toHex (map Num (x # b)) = toLowerCase (byteHex x) @ toHex (map Num b)"
    using byte_digits [OF x]
    by (simp add: toHex_def toHex_loop_acc toLowerCase_def)
  then show ?case
    using b toLowerCase_byteHex [OF x] by simp
qed

lemma byteHex_chars:
  assumes "\<forall>x\<in>set b. 0 \<le> x \<and> x \<le> 255"
  shows "\<forall>ch\<in>set (concat (map byteHex b)). ch \<in> set ''0123456789abcdef''"
proof -
  have "ch \<in> set ''0123456789abcdef''" if "x \<in> set b" "ch \<in> set (byteHex x)" for x ch
  proof -
    from assms that(1) have d: "nat x div 16 < 16" "nat x mod 16 < 16"
      by auto
    from that(2) have "ch = hexChar (nat x div 16) \<or> ch = hexChar (nat x mod 16)"
      by (auto simp: byteHex_def)
    then show ?thesis
      using hexChar_props(10) [OF d(1)] hexChar_props(10) [OF d(2)] by blast
  qed
  then show ?thesis by auto
qed

lemma length_byteHex: "length (concat (map byteHex b)) = 2 * length b"
  by (induction b) (simp_all add: byteHex_def)

lemma toNumbers_bytes:
  assumes "\<forall>x\<in>set b. 0 \<le> x \<and> x \<le> 255"
  shows "toNumbers (concat (map byteHex b)) = map Num b"
  using assms
proof (induction b)
  case Nil
  show ?case by simp
next
  case (Cons x b)
  then have x: "0 \<le> x" "x \<le> 255" and b: "toNumbers (concat (map byteHex b)) = map Num b"
    by simp_all
  from x have d: "nat x div 16 < 16" "nat x mod 16 < 16"
    by auto
  have "int (16 * (nat x div 16) + nat x mod 16) = x"
    using x by simp
  then show ?case
    using b parseInt16_pair [OF d] hexChar_props(4) [OF d(1)] hexChar_props(4) [OF d(2)]
    by (simp add: byteHex_def [of x])
qed

lemma toNumbers_snoc_even:
  "\<forall>ch\<in>set h. \<not> isLineTerminator ch \<Longrightarrow> even (length h) \<Longrightarrow>
     toNumbers (h @ [c]) = toNumbers h \<and> length (toNumbers h) = length h div 2"
proof (induction h rule: toNumbers.induct)
  case (1 x y rest)
  then show ?case by simp
next
  case (2 x)
  then show ?case by simp
next
  case 3
  show ?case by simp
qed

lemma hexDigit_not_LineTerminator: "isHexDigit c \<Longrightarrow> \<not> isLineTerminator c"
  by (auto simp: isHexDigit_def isLineTerminator_def)

lemma toNumbers_odd:
  assumes "\<forall>ch\<in>set h. isHexDigit ch" "odd (length h)"
  shows "toNumbers h = toNumbers (butlast h) \<and> length (toNumbers h) = length h div 2"
proof -
  from assms(2) have "h \<noteq> []" by auto
  then obtain c where h: "h = butlast h @ [c]"
    by (metis append_butlast_last_id)
  have e: "even (length (butlast h))"
    using assms(2) \<open>h \<noteq> []\<close> by simp
  have l: "\<forall>ch\<in>set (butlast h). \<not> isLineTerminator ch"
    using assms(1) hexDigit_not_LineTerminator by (auto dest: in_set_butlastD)
  from toNumbers_snoc_even [OF l e, of c] h
  have "toNumbers h = toNumbers (butlast h)"
    "length (toNumbers (butlast h)) = length (butlast h) div 2"
    by simp_all
  moreover have "length (butlast h) div 2 = length h div 2"
    using assms(2) \<open>h \<noteq> []\<close> by (auto elim: oddE)
  ultimately show ?thesis by simp
qed

text \<open>
  Claim C6.  For every sequence \<open>b\<close> of byte values (each between 0 and 255),
  \<open>toNumbers (toHex b)\<close> is \<open>b\<close> again, and \<open>toHex b\<close> is the concatenation of the two
  lowercase hexadecimal digits of each byte: twice as long as \<open>b\<close> and made of the
  characters 0-9 and a-f only.  For every string \<open>h\<close> of hexadecimal digits of odd length,
  \<open>toNumbers\<close> does not fail: it returns what it returns on \<open>h\<close> without its last
  character, one number for each of the \<open>length h div 2\<close> complete pairs.
\<close>

theorem C6_hex_round_trip:
  "((\<forall>x\<in>set b. 0 \<le> x \<and> x \<le> 255) \<longrightarrow>
      toNumbers (toHex (map Num b)) = map Num b \<and>
      toHex (map Num b) = concat (map byteHex b) \<and>
      length (toHex (map Num b)) = 2 * length b \<and>
      (\<forall>ch\<in>set (toHex (map Num b)). ch \<in> set ''0123456789abcdef'')) \<and>
   ((\<forall>ch\<in>set h. isHexDigit ch) \<and> odd (length h) \<longrightarrow>
      toNumbers h = toNumbers (butlast h) \<and> length (toNumbers h) = length h div 2)"
proof (intro conjI impI)
  assume b: "\<forall>x\<in>set b. 0 \<le> x \<and> x \<le> 255"
  show "toHex (map Num b) = concat (map byteHex b)"
    by (rule toHex_bytes [OF b])
  then show "toNumbers (toHex (map Num b)) = map Num b"
    by (simp add: toNumbers_bytes [OF b])
  show "length (toHex (map Num b)) = 2 * length b"
    by (simp add: toHex_bytes [OF b] length_byteHex)
  show "\<forall>ch\<in>set (toHex (map Num b)). ch \<in> set ''0123456789abcdef''"
    using byteHex_chars [OF b] by (simp only: toHex_bytes [OF b])
next
  assume h: "(\<forall>ch\<in>set h. isHexDigit ch) \<and> odd (length h)"
  then have "toNumbers h = toNumbers (butlast h) \<and> length (toNumbers h) = length h div 2"
    by (intro toNumbers_odd) blast+
  then show "toNumbers h = toNumbers (butlast h)" "length (toNumbers h) = length h div 2"
    by blast+
qed

theorem C6_hex_round_trip_witness:
  "toNumbers (toHex (map Num [0, 10, 255])) = map Num [0, 10, 255] \<and>
   toHex (map Num [0, 10, 255]) = concat (map byteHex [0, 10, 255]) \<and>
   length (toHex (map Num [0, 10, 255])) = 6 \<and>
   toNumbers ''0a1'' = toNumbers ''0a'' \<and> length (toNumbers ''0a1'') = 1"
proof -
  have b: "\<forall>x\<in>set [0, 10, 255 :: int]. 0 \<le> x \<and> x \<le> 255"
    by simp
  have h: "(\<forall>ch\<in>set ''0a1''. isHexDigit ch) \<and> odd (length ''0a1'')"
    by (simp add: isHexDigit_def)
  have 1: "toNumbers (toHex (map Num [0, 10, 255])) = map Num [0, 10, 255] \<and>
      toHex (map Num [0, 10, 255]) = concat (map byteHex [0, 10, 255]) \<and>
      length (toHex (map Num [0, 10, 255])) = 2 * length [0, 10, 255 :: int]"
    using C6_hex_round_trip [of "[0, 10, 255]" "''0a1''"] b by blast
  have 2: "toNumbers ''0a1'' = toNumbers (butlast ''0a1'') \<and>
      length (toNumbers ''0a1'') = length ''0a1'' div 2"
    using C6_hex_round_trip [of "[0, 10, 255]" "''0a1''"] h by blast
  have e: "2 * length [0, 10, 255 :: int] = 6" "butlast ''0a1'' = ''0a''"
    "length ''0a1'' div 2 = 1"
    by simp_all
  show ?thesis
    using 1 2 unfolding e by blast
qed

section \<open>The detector\<close>

lemma startsWith_iff: "startsWith s m \<longleftrightarrow> (\<exists>v. s = m @ v)"
  by (induction s m rule: startsWith.induct) auto

lemma includes_str_iff: "includes_str s m \<longleftrightarrow> occurs_in m s"
proof (induction s)
  case Nil
  show ?case by (auto simp: occurs_in_def)
next
  case (Cons c s)
  have "occurs_in m (c # s) \<longleftrightarrow> (\<exists>v. c # s = m @ v) \<or> occurs_in m s"
  proof
    assume "occurs_in m (c # s)"
    then obtain u v where uv: "c # s = u @ m @ v"
      by (auto simp: occurs_in_def)
    show "(\<exists>v. c # s = m @ v) \<or> occurs_in m s"
    proof (cases u)
      case Nil
      with uv show ?thesis by auto
    next
      case (Cons x u')
      with uv have "s = u' @ m @ v" by simp
      then show ?thesis by (auto simp: occurs_in_def)
    qed
  next
    assume "(\<exists>v. c # s = m @ v) \<or> occurs_in m s"
    then show "occurs_in m (c # s)"
    proof
      assume "\<exists>v. c # s = m @ v"
      then obtain v where "c # s = [] @ m @ v" by auto
      then show ?thesis unfolding occurs_in_def by blast
    next
      assume "occurs_in m s"
      then obtain u v where "s = u @ m @ v" by (auto simp: occurs_in_def)
      then have "c # s = (c # u) @ m @ v" by simp
      then show ?thesis unfolding occurs_in_def by blast
    qed
  qed
  with Cons show ?case
    by (simp add: startsWith_iff)
qed

text \<open>
  Claim C1.  For a response whose body is the string \<open>s\<close>, \<open>detectCookieChallenge\<close> is
  true exactly when each of the four markers \<open>slowAES.decrypt\<close>, \<open>__test=\<close>,
  \<open>location.href\<close> and \<open>/aes.js\<close> occurs in \<open>s\<close>.  Whenever it is true of any
  argument, the argument is a response whose body is a string in which all four markers
  occur: a response that misses one of them is classified as no challenge.
\<close>

theorem C1_detect_four_markers:
  "(resp_data r = BString s \<longrightarrow>
      detectCookieChallenge (Some r) =
        (occurs_in ''slowAES.decrypt'' s \<and> occurs_in ''__test='' s \<and>
         occurs_in ''location.href'' s \<and> occurs_in ''/aes.js'' s)) \<and>
   (detectCookieChallenge ro \<longrightarrow>
      (\<exists>r' s'. ro = Some r' \<and> resp_data r' = BString s' \<and>
         occurs_in ''slowAES.decrypt'' s' \<and> occurs_in ''__test='' s' \<and>
         occurs_in ''location.href'' s' \<and> occurs_in ''/aes.js'' s'))"
proof (intro conjI impI)
  assume "resp_data r = BString s"
  moreover have "s = [] \<Longrightarrow> \<not> occurs_in ''/aes.js'' s"
    by (simp add: occurs_in_def)
  ultimately show "detectCookieChallenge (Some r) =
        (occurs_in ''slowAES.decrypt'' s \<and> occurs_in ''__test='' s \<and>
         occurs_in ''location.href'' s \<and> occurs_in ''/aes.js'' s)"
    unfolding detectCookieChallenge_def Let_def includes_str_iff by auto
next
  assume d: "detectCookieChallenge ro"
  then obtain r' where ro: "ro = Some r'"
    by (cases ro) (simp_all add: detectCookieChallenge_def)
  show "\<exists>r' s'. ro = Some r' \<and> resp_data r' = BString s' \<and>
         occurs_in ''slowAES.decrypt'' s' \<and> occurs_in ''__test='' s' \<and>
         occurs_in ''location.href'' s' \<and> occurs_in ''/aes.js'' s'"
  proof (cases "resp_data r'")
    case (BString s')
    with d ro show ?thesis
      unfolding detectCookieChallenge_def Let_def includes_str_iff
      by (auto split: if_splits)
  next
    case (BOther t x)
    with d ro show ?thesis
      by (simp add: detectCookieChallenge_def Let_def split: if_splits)
  qed
qed

lemma detect_challengeResponse: "detectCookieChallenge (Some challengeResponse)"
  by (simp add: detectCookieChallenge_def challengeResponse_def challengeHtml_def)

theorem C1_detect_four_markers_witness:
  "resp_data challengeResponse = BString challengeHtml \<and>
   detectCookieChallenge (Some challengeResponse) \<and>
   occurs_in ''slowAES.decrypt'' challengeHtml \<and> occurs_in ''__test='' challengeHtml \<and>
   occurs_in ''location.href'' challengeHtml \<and> occurs_in ''/aes.js'' challengeHtml"
proof -
  have b: "resp_data challengeResponse = BString challengeHtml"
    by (simp add: challengeResponse_def)
  have d: "detectCookieChallenge (Some challengeResponse)"
    by (rule detect_challengeResponse)
  from C1_detect_four_markers [of challengeResponse challengeHtml "Some challengeResponse"] b d
  show ?thesis by blast
qed

section \<open>The example page\<close>

lemma extract_challengeHtml:
  "extractEncryptedValues challengeHtml =
     Some \<lparr>enc_a = ''f655ba9d09a112d4968c63579db590b4'',
           enc_b = ''98344c2eee86c3994890592585b49f80'',
           enc_c = ''fdd9f8ac7a55834004f21a883ac3e49e''\<rparr>"
  by code_simp

lemma run_example_scripts:
  "run_Function examplePlatform (loaderCode directScript) = Inr (Some directObject, empty_object)"
  "run_Function examplePlatform (loaderCode blankScript) = Inr (Some empty_object, empty_object)"
  "run_Function examplePlatform (loaderCode attachScript) = Inr (Some nestedObject, nestedObject)"
  "run_Function examplePlatform (loaderCode rebindScript) = Inr (Some nestedObject, empty_object)"
  "run_Function examplePlatform (loaderCode echoScript) = Inr (Some echoObject, empty_object)"
  "run_Function examplePlatform (loaderCode throwingScript) =
     Inr (Some throwingObject, empty_object)"
  "run_Function examplePlatform (loaderCode brokenScript) = Inl syntaxError"
  by (simp_all add: examplePlatform_def loaderCode_def directScript_def blankScript_def
      attachScript_def rebindScript_def brokenScript_def echoScript_def throwingScript_def)

lemma example_fetch:
  "client_get (servingClient script) ''/aes.js'' ''https://example.com'' =
     Inr (scriptResponse script)"
  "String_body (resp_data (scriptResponse script)) = script"
  "defaults_baseURL (servingClient script) = Some ''https://example.com''"
  by (simp_all add: servingClient_def scriptResponse_def)

lemma example_base:
  "resolveBaseURL env (servingClient script) req = Inr ''https://example.com''"
  by (simp add: resolveBaseURL_def servingClient_def)

lemma example_pages:
  "extractEncryptedValues (pageWith ''0a'') = Some \<lparr>enc_a = ''00'', enc_b = ''00'', enc_c = ''0a''\<rparr>"
  "extractEncryptedValues (pageWith ''0b'') = Some \<lparr>enc_a = ''00'', enc_b = ''00'', enc_c = ''0b''\<rparr>"
  "toHex (toNumbers ''0a'') = ''0a''" "toHex (toNumbers ''0b'') = ''0b''"
  by code_simp+

lemma example_detections:
  "detectCookieChallenge (Some (answerWith (BString (pageWith ''0a'')) config))"
  "detectCookieChallenge (Some (answerWith (BString (pageWith ''0b'')) config))"
  "\<not> detectCookieChallenge (Some (answerWith (BString echoScript) config))"
  "\<not> detectCookieChallenge (Some (answerWith (BOther True ''[object Object]'') config))"
  by (simp_all add: detectCookieChallenge_def answerWith_def pageWith_def echoScript_def)

section \<open>The solver's calls on the client\<close>

text \<open>
  A run of \<open>processCookieChallenge\<close> makes no call, or only the fetch of the routine, or
  the fetch and then one retry request whose answer is the run's outcome.
\<close>

lemma loadSlowAES_events: "snd (loadSlowAES env client baseURL) = [Get ''/aes.js'' baseURL]"
  by (simp add: loadSlowAES_def split: sum.splits prod.splits)

lemma processCookieChallenge_events:
  "snd (processCookieChallenge env r client) = [] \<and>
     (\<exists>e. fst (processCookieChallenge env r client) = Inl e) \<or>
   (\<exists>base. snd (processCookieChallenge env r client) = [Get ''/aes.js'' base] \<and>
     (\<exists>e. fst (processCookieChallenge env r client) = Inl e)) \<or>
   (\<exists>base cfg. snd (processCookieChallenge env r client) = [Get ''/aes.js'' base, Request cfg] \<and>
     fst (processCookieChallenge env r client) = client_request client cfg)"
proof (cases "extractEncryptedValues (String_body (resp_data r))")
  case None
  then show ?thesis
    by (simp add: processCookieChallenge_def)
next
  case (Some encrypted)
  note enc = Some
  show ?thesis
  proof (cases "resolveBaseURL env client (resp_config r)")
    case (Inl e)
    with enc show ?thesis
      by (simp add: processCookieChallenge_def)
  next
    case (Inr base)
    obtain res evs where l: "loadSlowAES env client base = (res, evs)"
      by (cases "loadSlowAES env client base")
    with loadSlowAES_events [of env client base] have evs: "evs = [Get ''/aes.js'' base]"
      by simp
    show ?thesis
    proof (cases res)
      case (Inl e)
      with enc Inr l evs show ?thesis
        by (simp add: processCookieChallenge_def)
    next
      case (Inr slowAES)
      with enc \<open>resolveBaseURL env client (resp_config r) = Inr base\<close> l evs show ?thesis
        by (simp add: processCookieChallenge_def Let_def split: option.splits sum.splits)
    qed
  qed
qed

lemma processCookieChallenge_retries: "retries (snd (processCookieChallenge env r client)) \<le> 1"
  using processCookieChallenge_events [of env r client]
  by (auto simp: retries_def)

lemma processCookieChallenge_outcome:
  assumes "Request cfg \<in> set (snd (processCookieChallenge env r client))"
  shows "fst (processCookieChallenge env r client) = client_request client cfg"
  using processCookieChallenge_events [of env r client] assms
  by auto

lemma interceptor_events:
  "snd (createCookieChallengeInterceptor client detectFn processFn r) =
     (if detectFn r
      then Solve r # snd (processFn r client) @
        (case fst (processFn r client) of Inl e \<Rightarrow> [ConsoleError e] | Inr x \<Rightarrow> [])
      else [])"
  by (cases "processFn r client")
    (simp add: createCookieChallengeInterceptor_def split: sum.splits)

lemma interceptor_outcome:
  "fst (createCookieChallengeInterceptor client detectFn processFn r) =
     (if detectFn r then fst (processFn r client) else Inr r)"
  by (cases "processFn r client")
    (simp add: createCookieChallengeInterceptor_def split: sum.splits)

section \<open>The instance of \<open>createAxiosClient\<close>\<close>

lemma collect_Some: "collect xs = Some w \<Longrightarrow> None \<notin> set xs"
proof (induction xs arbitrary: w)
  case Nil
  show ?case by simp
next
  case (Cons x xs)
  then show ?case
    by (cases x; cases "collect xs") auto
qed

text \<open>
  A run that returns: every call it made on the instance has returned one level below,
  and the outcome is the outcome of the handler that the instance ran.
\<close>

lemma instanceRun_Suc:
  assumes "instanceRun (Suc n) env base0 transport config = Some (res, w)"
  defines "client \<equiv> clientOver base0 (instanceRun n env base0 transport)"
  defines "handled \<equiv> (case transport config of
      Inr response \<Rightarrow> onFulfilled (createAxiosClient env client None) response
    | Inl error \<Rightarrow> onRejected (createAxiosClient env client None) error)"
  shows "res = fst handled"
    and "\<And>ev c. ev \<in> set (snd handled) \<Longrightarrow> event_request ev = Some c \<Longrightarrow>
      \<exists>res' w'. instanceRun n env base0 transport c = Some (res', w')"
proof -
  obtain r evs where h: "handled = (r, evs)"
    by (cases handled)
  from assms(1) h obtain w0 where
    c: "collect (map (\<lambda>ev. case event_request ev of None \<Rightarrow> Some []
          | Some c \<Rightarrow> map_option snd (instanceRun n env base0 transport c)) evs) = Some w0"
    and r: "res = r"
    unfolding handled_def client_def
    by (auto simp: Let_def split: option.splits)
  from r h show "res = fst handled"
    by simp
  fix ev c
  assume "ev \<in> set (snd handled)" "event_request ev = Some c"
  with h have "map_option snd (instanceRun n env base0 transport c) \<in>
      set (map (\<lambda>ev. case event_request ev of None \<Rightarrow> Some []
          | Some c \<Rightarrow> map_option snd (instanceRun n env base0 transport c)) evs)"
    by (force simp: image_iff)
  with collect_Some [OF c] have "map_option snd (instanceRun n env base0 transport c) \<noteq> None"
    by metis
  then show "\<exists>res' w'. instanceRun n env base0 transport c = Some (res', w')"
    by (cases "instanceRun n env base0 transport c") auto
qed

text \<open>
  The retry of the solver is a request on the instance: its answer has gone through the
  handlers again, and it is the outcome of the run that received the challenge.
\<close>

lemma instance_reenters:
  assumes t: "transport config = Inr resp" and d: "detectCookieChallenge (Some resp)"
    and m: "Request retry \<in> set (snd (processCookieChallenge env resp
      (clientOver base0 (instanceRun n env base0 transport))))"
    and run: "instanceRun (Suc n) env base0 transport config = Some (res, w)"
  shows "\<exists>w'. instanceRun n env base0 transport retry = Some (res, w')"
proof -
  let ?client = "clientOver base0 (instanceRun n env base0 transport)"
  let ?handled = "onFulfilled (createAxiosClient env ?client None) resp"
  have h: "?handled = defaultInterceptor env ?client resp"
    by (simp add: createAxiosClient_def Let_def)
  from instanceRun_Suc(1) [OF run] t have res: "res = fst ?handled"
    by simp
  also have "\<dots> = fst (processCookieChallenge env resp ?client)"
    using d by (simp add: h defaultInterceptor_def interceptor_outcome)
  also have "\<dots> = client_request ?client retry"
    by (rule processCookieChallenge_outcome [OF m])
  also have "\<dots> = answer (instanceRun n env base0 transport retry)"
    by (simp add: clientOver_def)
  finally have a: "res = answer (instanceRun n env base0 transport retry)" .
  have "Request retry \<in> set (snd ?handled)"
    using m d by (simp add: h defaultInterceptor_def interceptor_events)
  with instanceRun_Suc(2) [OF run, of "Request retry" retry] t
  obtain res' w' where "instanceRun n env base0 transport retry = Some (res', w')"
    by auto
  with a show ?thesis by simp
qed

section \<open>The orchestrator\<close>

text \<open>
  Claim C8.  For every response that the detection function classifies as no challenge,
  the handler returns that same response and records no event: no call of the solver, no
  fetch of the routine, no request on the client.  This holds for every detection and
  solver function, and so for the handler with the default arguments and for the
  success handler that \<open>createAxiosClient\<close> registers.
\<close>

theorem C8_pass_through:
  "(\<not> detectFn r \<longrightarrow>
      createCookieChallengeInterceptor client detectFn processFn r = (Inr r, [])) \<and>
   (\<not> detectCookieChallenge (Some r) \<longrightarrow>
      defaultInterceptor env client r = (Inr r, []) \<and>
      onFulfilled (createAxiosClient env client None) r = (Inr r, []))"
  by (simp add: createCookieChallengeInterceptor_def defaultInterceptor_def
      createAxiosClient_def Let_def)

lemma detect_jsonResponse: "\<not> detectCookieChallenge (Some jsonResponse)"
  by (simp add: detectCookieChallenge_def jsonResponse_def)

theorem C8_pass_through_witness:
  "\<not> detectCookieChallenge (Some jsonResponse) \<and>
   defaultInterceptor examplePlatform exampleClient jsonResponse = (Inr jsonResponse, []) \<and>
   onFulfilled (createAxiosClient examplePlatform exampleClient None) jsonResponse =
     (Inr jsonResponse, [])"
  using C8_pass_through [of "\<lambda>r. detectCookieChallenge (Some r)" jsonResponse exampleClient
      "processCookieChallenge examplePlatform" examplePlatform]
    detect_jsonResponse
  by blast

section \<open>Failure of the resolution\<close>

lemma default_handlers:
  "onFulfilled (createAxiosClient env client None) = defaultInterceptor env client"
  "err_response error = Some r \<Longrightarrow> fst (defaultInterceptor env client r) = Inl e \<Longrightarrow>
     fst (onRejected (createAxiosClient env client None) error) = Inl error"
  by (cases "defaultInterceptor env client r"; simp add: createAxiosClient_def Let_def)+

lemma default_outcome:
  "detectCookieChallenge (Some r) \<Longrightarrow>
     fst (defaultInterceptor env client r) = fst (processCookieChallenge env r client)"
  by (simp add: defaultInterceptor_def interceptor_outcome)

lemma offline_fetch:
  "instanceRun (Suc n) env dflt offlineTransport (getConfig ''/aes.js'' base) =
     Some (Inl (Error ''Network Error'' None), [getConfig ''/aes.js'' base])"
  "instanceRun (Suc n) env dflt failingTransport (getConfig ''/aes.js'' base) =
     Some (Inl (Error ''Network Error'' None), [getConfig ''/aes.js'' base])"
  by (simp_all add: offlineTransport_def failingTransport_def getConfig_def createAxiosClient_def
      Let_def)

lemma offline_process:
  assumes "defaults_baseURL c = Some ''https://example.com''"
    and "client_get c ''/aes.js'' ''https://example.com'' = Inl (Error ''Network Error'' None)"
    and "resp_data r = BString (pageWith ''0a'')"
  shows "processCookieChallenge env r c =
     (Inl (Error ''Failed to load slowAES: Network Error'' None),
      [Get ''/aes.js'' ''https://example.com''])"
  using assms
  by (simp add: processCookieChallenge_def example_pages resolveBaseURL_def loadSlowAES_def)

text \<open>
  Claim C3.  When the detection function classifies a response as a challenge and the
  solver fails on it with an error \<open>e\<close>, the handler fails with that same error \<open>e\<close>
  (after writing it to the console), and so does the success handler registered by
  \<open>createAxiosClient\<close>; the error handler registered by \<open>createAxiosClient\<close>, given a
  transport error that carries this response, fails with the transport error itself.
  None of the three returns a response.  This holds for a handler made from any detection
  and solver function, and for the default handler of \<open>createAxiosClient\<close>, made from
  \<open>detectCookieChallenge\<close> and \<open>processCookieChallenge\<close>.  It reaches the caller of the
  instance: a request on the instance that returns, and whose answer is a challenge on
  which the solver fails with \<open>e\<close>, returns the failure \<open>e\<close> when the answer came as a
  response, and the transport error when the answer came carried by a transport error.
\<close>

theorem C3_failure_propagates:
  "(detectFn r \<and> fst (processFn r client) = Inl e \<longrightarrow>
     fst (createCookieChallengeInterceptor client detectFn processFn r) = Inl e \<and>
     fst (onFulfilled (createAxiosClient env client'
            (Some (createCookieChallengeInterceptor client detectFn processFn))) r) = Inl e \<and>
     (err_response error = Some r \<longrightarrow>
        fst (onRejected (createAxiosClient env client'
               (Some (createCookieChallengeInterceptor client detectFn processFn))) error) =
          Inl error) \<and>
     (\<forall>x. fst (createCookieChallengeInterceptor client detectFn processFn r) \<noteq> Inr x)) \<and>
   (detectCookieChallenge (Some r) \<and> fst (processCookieChallenge env r client) = Inl e \<longrightarrow>
     fst (defaultInterceptor env client r) = Inl e \<and>
     fst (onFulfilled (createAxiosClient env client None) r) = Inl e \<and>
     (err_response error = Some r \<longrightarrow>
        fst (onRejected (createAxiosClient env client None) error) = Inl error)) \<and>
   (detectCookieChallenge (Some r) \<and>
    fst (processCookieChallenge env r (clientOver dflt (instanceRun n env dflt transport))) =
      Inl e \<and>
    instanceRun (Suc n) env dflt transport config = Some (res, w) \<longrightarrow>
     (transport config = Inr r \<longrightarrow> res = Inl e) \<and>
     (transport config = Inl error \<and> err_response error = Some r \<longrightarrow> res = Inl error))"
proof (intro conjI impI)
  assume a: "detectFn r \<and> fst (processFn r client) = Inl e"
  then show "fst (createCookieChallengeInterceptor client detectFn processFn r) = Inl e"
    by (simp add: interceptor_outcome)
  from a show "fst (onFulfilled (createAxiosClient env client'
      (Some (createCookieChallengeInterceptor client detectFn processFn))) r) = Inl e"
    by (simp add: interceptor_outcome createAxiosClient_def Let_def)
  from a show "\<forall>x. fst (createCookieChallengeInterceptor client detectFn processFn r) \<noteq> Inr x"
    by (simp add: interceptor_outcome)
  assume "err_response error = Some r"
  with a show "fst (onRejected (createAxiosClient env client'
      (Some (createCookieChallengeInterceptor client detectFn processFn))) error) = Inl error"
    by (cases "processFn r client")
      (auto simp: createCookieChallengeInterceptor_def createAxiosClient_def Let_def)
next
  assume a: "detectCookieChallenge (Some r) \<and> fst (processCookieChallenge env r client) = Inl e"
  then show d: "fst (defaultInterceptor env client r) = Inl e"
    by (simp add: default_outcome)
  then show "fst (onFulfilled (createAxiosClient env client None) r) = Inl e"
    by (simp add: default_handlers(1))
  assume "err_response error = Some r"
  then show "fst (onRejected (createAxiosClient env client None) error) = Inl error"
    using d by (rule default_handlers(2))
next
  let ?client = "clientOver dflt (instanceRun n env dflt transport)"
  assume a: "detectCookieChallenge (Some r) \<and>
    fst (processCookieChallenge env r ?client) = Inl e \<and>
    instanceRun (Suc n) env dflt transport config = Some (res, w)"
  then have d: "fst (defaultInterceptor env ?client r) = Inl e"
    by (simp add: default_outcome)
  from a have run: "instanceRun (Suc n) env dflt transport config = Some (res, w)"
    by simp
  {
    assume "transport config = Inr r"
    with instanceRun_Suc(1) [OF run] d show "res = Inl e"
      by (simp add: default_handlers(1))
  next
    assume "transport config = Inl error \<and> err_response error = Some r"
    with instanceRun_Suc(1) [OF run] default_handlers(2) [of error r env ?client e] d
    show "res = Inl error"
      by simp
  }
qed

theorem C3_failure_propagates_witness:
  "detectCookieChallenge (Some challengeResponse) \<and>
   fst (processCookieChallenge examplePlatform challengeResponse offlineClient) =
     Inl (Error ''Failed to load slowAES: Network Error'' None) \<and>
   fst (createCookieChallengeInterceptor offlineClient (\<lambda>r. detectCookieChallenge (Some r))
          (processCookieChallenge examplePlatform) challengeResponse) =
     Inl (Error ''Failed to load slowAES: Network Error'' None) \<and>
   fst (onRejected (createAxiosClient examplePlatform offlineClient
          (Some (createCookieChallengeInterceptor offlineClient
             (\<lambda>r. detectCookieChallenge (Some r)) (processCookieChallenge examplePlatform))))
          (Error ''Request failed with status code 503'' (Some challengeResponse))) =
     Inl (Error ''Request failed with status code 503'' (Some challengeResponse)) \<and>
   fst (onFulfilled (createAxiosClient examplePlatform offlineClient None) challengeResponse) =
     Inl (Error ''Failed to load slowAES: Network Error'' None) \<and>
   fst (onRejected (createAxiosClient examplePlatform offlineClient None)
          (Error ''Request failed with status code 503'' (Some challengeResponse))) =
     Inl (Error ''Request failed with status code 503'' (Some challengeResponse)) \<and>
   offlineTransport exampleRequest =
     Inr (answerWith (BString (pageWith ''0a'')) exampleRequest) \<and>
   detectCookieChallenge (Some (answerWith (BString (pageWith ''0a'')) exampleRequest)) \<and>
   fst (processCookieChallenge examplePlatform
          (answerWith (BString (pageWith ''0a'')) exampleRequest)
          (clientOver (Some ''https://example.com'')
             (instanceRun 1 examplePlatform (Some ''https://example.com'') offlineTransport))) =
     Inl (Error ''Failed to load slowAES: Network Error'' None) \<and>
   instanceRun 2 examplePlatform (Some ''https://example.com'') offlineTransport exampleRequest =
     Some (Inl (Error ''Failed to load slowAES: Network Error'' None),
       [exampleRequest, getConfig ''/aes.js'' ''https://example.com'']) \<and>
   failingTransport exampleRequest = Inl (unavailable exampleRequest) \<and>
   instanceRun 2 examplePlatform (Some ''https://example.com'') failingTransport exampleRequest =
     Some (Inl (unavailable exampleRequest),
       [exampleRequest, getConfig ''/aes.js'' ''https://example.com''])"
proof -
  note t = C3_failure_propagates
  let ?e = "Error ''Failed to load slowAES: Network Error'' None"
  let ?error = "Error ''Request failed with status code 503'' (Some challengeResponse)"
  let ?base = "Some ''https://example.com''"
  let ?page = "answerWith (BString (pageWith ''0a'')) exampleRequest"
  let ?trace = "[exampleRequest, getConfig ''/aes.js'' ''https://example.com'']"
  have p: "fst (processCookieChallenge examplePlatform challengeResponse offlineClient) = Inl ?e"
    by (simp add: processCookieChallenge_def challengeResponse_def extract_challengeHtml
        resolveBaseURL_def offlineClient_def exampleClient_def servingClient_def loadSlowAES_def)
  have r: "err_response ?error = Some challengeResponse"
    by simp
  note g = t [where detectFn = "\<lambda>r. detectCookieChallenge (Some r)" and r = challengeResponse
      and processFn = "processCookieChallenge examplePlatform" and client = offlineClient
      and e = ?e and env = examplePlatform and client' = offlineClient and error = ?error]
  have g1: "fst (createCookieChallengeInterceptor offlineClient
      (\<lambda>r. detectCookieChallenge (Some r)) (processCookieChallenge examplePlatform)
      challengeResponse) = Inl ?e"
    using conjunct1 [OF g] detect_challengeResponse p by blast
  have g2: "fst (onRejected (createAxiosClient examplePlatform offlineClient
      (Some (createCookieChallengeInterceptor offlineClient
         (\<lambda>r. detectCookieChallenge (Some r)) (processCookieChallenge examplePlatform))))
      ?error) = Inl ?error"
    using conjunct1 [OF g] detect_challengeResponse p r by blast
  have g3: "fst (onFulfilled (createAxiosClient examplePlatform offlineClient None)
      challengeResponse) = Inl ?e"
    using conjunct1 [OF conjunct2 [OF g]] detect_challengeResponse p by blast
  have g4: "fst (onRejected (createAxiosClient examplePlatform offlineClient None) ?error) =
      Inl ?error"
    using conjunct1 [OF conjunct2 [OF g]] detect_challengeResponse p r by blast
  have t1: "offlineTransport exampleRequest = Inr ?page"
    by (simp add: offlineTransport_def exampleRequest_def)
  have t2: "failingTransport exampleRequest = Inl (unavailable exampleRequest)"
    by (simp add: failingTransport_def exampleRequest_def)
  have p1: "processCookieChallenge examplePlatform ?page
      (clientOver ?base (instanceRun (Suc 0) examplePlatform ?base offlineTransport)) =
      (Inl ?e, [Get ''/aes.js'' ''https://example.com''])"
    by (rule offline_process)
      (simp_all add: clientOver_def offline_fetch answerWith_def del: instanceRun.simps)
  have p2: "processCookieChallenge examplePlatform
      ((answerWith (BString (pageWith ''0a'')) exampleRequest)\<lparr>resp_status := 503\<rparr>)
      (clientOver ?base (instanceRun (Suc 0) examplePlatform ?base failingTransport)) =
      (Inl ?e, [Get ''/aes.js'' ''https://example.com''])"
    by (rule offline_process)
      (simp_all add: clientOver_def offline_fetch answerWith_def del: instanceRun.simps)
  have d2: "detectCookieChallenge
      (Some ((answerWith (BString (pageWith ''0a'')) exampleRequest)\<lparr>resp_status := 503\<rparr>))"
    by (simp add: detectCookieChallenge_def answerWith_def pageWith_def)
  have r1: "instanceRun (Suc (Suc 0)) examplePlatform ?base offlineTransport exampleRequest =
      Some (Inl ?e, ?trace)"
    by (subst instanceRun.simps(2))
      (simp add: t1 createAxiosClient_def defaultInterceptor_def
        createCookieChallengeInterceptor_def example_detections p1 offline_fetch Let_def
        del: instanceRun.simps)
  have r2: "instanceRun (Suc (Suc 0)) examplePlatform ?base failingTransport exampleRequest =
      Some (Inl (unavailable exampleRequest), ?trace)"
    by (subst instanceRun.simps(2))
      (simp add: t2 createAxiosClient_def defaultInterceptor_def unavailable_def
        createCookieChallengeInterceptor_def d2 p2 offline_fetch Let_def
        del: instanceRun.simps)
  have g5: "(Inl ?e :: js_error + response) = Inl ?e"
    using conjunct2 [OF conjunct2 [OF t [where env = examplePlatform and dflt = ?base
        and n = "Suc 0" and config = exampleRequest and w = ?trace
        and transport = offlineTransport and r = ?page and e = ?e and res = "Inl ?e"]]]
      example_detections(1) p1 r1 t1
    by simp
  have g6: "(Inl (unavailable exampleRequest) :: js_error + response) =
      Inl (unavailable exampleRequest)"
    using conjunct2 [OF conjunct2 [OF t [where env = examplePlatform and dflt = ?base
        and n = "Suc 0" and config = exampleRequest and w = ?trace
        and transport = failingTransport and e = ?e
        and r = "(answerWith (BString (pageWith ''0a'')) exampleRequest)\<lparr>resp_status := 503\<rparr>"
        and res = "Inl (unavailable exampleRequest)" and error = "unavailable exampleRequest"]]]
      d2 p2 r2 t2
    by simp
  have p1': "fst (processCookieChallenge examplePlatform ?page
      (clientOver ?base (instanceRun 1 examplePlatform ?base offlineTransport))) = Inl ?e"
    using p1 by (simp del: instanceRun.simps)
  have r1': "instanceRun 2 examplePlatform ?base offlineTransport exampleRequest =
      Some (Inl ?e, ?trace)"
    using r1 by (simp add: numeral_2_eq_2 del: instanceRun.simps)
  have r2': "instanceRun 2 examplePlatform ?base failingTransport exampleRequest =
      Some (Inl (unavailable exampleRequest), ?trace)"
    using r2 by (simp add: numeral_2_eq_2 del: instanceRun.simps)
  show ?thesis
    by (intro conjI) (rule detect_challengeResponse p g1 g2 g3 g4 t1 t2 example_detections(1)
        p1' r1' r2')+
qed

text \<open>
  Claim C10.  For every transport error that carries a response which the detection
  function classifies as no challenge, the error handler registered by
  \<open>createAxiosClient\<close> returns the carried response as its result and does not fail with
  the error; this holds for a handler made by \<open>createCookieChallengeInterceptor\<close> from
  any detection and solver function, and for the default handler.
\<close>

theorem C10_error_becomes_success:
  "err_response error = Some r \<longrightarrow>
     (\<not> detectFn r \<longrightarrow>
        onRejected (createAxiosClient env client
          (Some (createCookieChallengeInterceptor client' detectFn processFn))) error =
          (Inr r, [])) \<and>
     (\<not> detectCookieChallenge (Some r) \<longrightarrow>
        onRejected (createAxiosClient env client None) error = (Inr r, []))"
  by (simp add: createCookieChallengeInterceptor_def defaultInterceptor_def
      createAxiosClient_def Let_def)

theorem C10_error_becomes_success_witness:
  "err_response (Error ''Request failed with status code 404'' (Some jsonResponse)) =
     Some jsonResponse \<and>
   \<not> detectCookieChallenge (Some jsonResponse) \<and>
   onRejected (createAxiosClient examplePlatform exampleClient None)
     (Error ''Request failed with status code 404'' (Some jsonResponse)) =
     (Inr jsonResponse, [])"
  using C10_error_becomes_success [of "Error ''Request failed with status code 404'' (Some jsonResponse)"
      jsonResponse "\<lambda>r. detectCookieChallenge (Some r)" examplePlatform exampleClient
      exampleClient "processCookieChallenge examplePlatform"]
    detect_jsonResponse
  by simp

section \<open>The solver on the example page\<close>

lemma toHex_example: "toHex [Num 1, Num 171] = ''01ab''"
  by code_simp

lemma process_example:
  assumes "defaults_baseURL c = Some ''https://example.com''"
    and "client_get c ''/aes.js'' ''https://example.com'' = Inr (scriptResponse directScript)"
  shows "processCookieChallenge examplePlatform challengeResponse c =
     (client_request c exampleRetry, [Get ''/aes.js'' ''https://example.com'', Request exampleRetry])"
  using assms
  by (simp add: processCookieChallenge_def challengeResponse_def extract_challengeHtml
      resolveBaseURL_def loadSlowAES_def examplePlatform_def scriptResponse_def directObject_def
      selectDecrypt_def stubDecrypt_def
      toHex_example buildRetryUrl_def exampleRequest_def exampleRetry_def url_search_def
      Let_def)


text \<open>The origin that challenges twice, step by step.\<close>

lemma example_retry_configs:
  "exampleRequest
     \<lparr>req_url := Some (buildRetryUrl examplePlatform exampleRequest ''https://example.com''),
      req_headers := (req_headers exampleRequest)(''Cookie'' \<mapsto> ''__test='' @ ''0a'')\<rparr> = firstRetry"
  "firstRetry
     \<lparr>req_url := Some (buildRetryUrl examplePlatform firstRetry ''https://example.com''),
      req_headers := (req_headers firstRetry)(''Cookie'' \<mapsto> ''__test='' @ ''0b'')\<rparr> = secondRetry"
  by (simp_all add: firstRetry_def secondRetry_def exampleRequest_def buildRetryUrl_def
      examplePlatform_def url_search_def)

lemma example_retry_hex:
  "exampleRequest
     \<lparr>req_url := Some (buildRetryUrl examplePlatform exampleRequest ''https://example.com''),
      req_headers := (req_headers exampleRequest)
        (''Cookie'' \<mapsto> ''__test='' @ toHex (toNumbers ''0a''))\<rparr> = firstRetry"
  "firstRetry
     \<lparr>req_url := Some (buildRetryUrl examplePlatform firstRetry ''https://example.com''),
      req_headers := (req_headers firstRetry)
        (''Cookie'' \<mapsto> ''__test='' @ toHex (toNumbers ''0b''))\<rparr> = secondRetry"
  using example_retry_configs by (simp_all only: example_pages(3,4))

lemma example_transport:
  "repeatingTransport (getConfig ''/aes.js'' base) =
     Inr (answerWith (BString echoScript) (getConfig ''/aes.js'' base))"
  "repeatingTransport exampleRequest = Inr (answerWith (BString (pageWith ''0a'')) exampleRequest)"
  "repeatingTransport firstRetry = Inr (answerWith (BString (pageWith ''0b'')) firstRetry)"
  "repeatingTransport secondRetry =
     Inr (answerWith (BOther True ''[object Object]'') secondRetry)"
  by (simp_all add: repeatingTransport_def getConfig_def exampleRequest_def firstRetry_def
      secondRetry_def)

lemma process_page:
  assumes "extractEncryptedValues (pageWith v) = Some \<lparr>enc_a = ''00'', enc_b = ''00'', enc_c = v\<rparr>"
    and "defaults_baseURL c = Some ''https://example.com''"
    and "client_get c ''/aes.js'' ''https://example.com'' = Inr (answerWith (BString echoScript) g)"
    and "config
       \<lparr>req_url := Some (buildRetryUrl examplePlatform config ''https://example.com''),
        req_headers := (req_headers config)(''Cookie'' \<mapsto> ''__test='' @ toHex (toNumbers v))\<rparr> =
       retry"
  shows "processCookieChallenge examplePlatform (answerWith (BString (pageWith v)) config) c =
     (client_request c retry, [Get ''/aes.js'' ''https://example.com'', Request retry])"
  using assms
  by (simp add: processCookieChallenge_def answerWith_def resolveBaseURL_def loadSlowAES_def
      run_example_scripts echoObject_def selectDecrypt_def Let_def)

lemma run_fetch:
  "instanceRun (Suc n) examplePlatform base0 repeatingTransport (getConfig ''/aes.js'' base) =
     Some (Inr (answerWith (BString echoScript) (getConfig ''/aes.js'' base)),
       [getConfig ''/aes.js'' base])"
  by (simp add: example_transport createAxiosClient_def defaultInterceptor_def
      createCookieChallengeInterceptor_def example_detections Let_def)

lemma run_secondRetry:
  "instanceRun (Suc n) examplePlatform base0 repeatingTransport secondRetry =
     Some (Inr (answerWith (BOther True ''[object Object]'') secondRetry), [secondRetry])"
  by (simp add: example_transport createAxiosClient_def defaultInterceptor_def
      createCookieChallengeInterceptor_def example_detections Let_def)

lemma run_firstRetry:
  "instanceRun (Suc (Suc n)) examplePlatform (Some ''https://example.com'') repeatingTransport
     firstRetry =
     Some (Inr (answerWith (BOther True ''[object Object]'') secondRetry),
       [firstRetry, getConfig ''/aes.js'' ''https://example.com'', secondRetry])"
proof -
  let ?client = "clientOver (Some ''https://example.com'')
    (instanceRun (Suc n) examplePlatform (Some ''https://example.com'') repeatingTransport)"
  have "processCookieChallenge examplePlatform (answerWith (BString (pageWith ''0b'')) firstRetry)
      ?client =
     (client_request ?client secondRetry,
      [Get ''/aes.js'' ''https://example.com'', Request secondRetry])"
    by (rule process_page [OF example_pages(2) _ _ example_retry_hex(2)])
      (simp_all add: clientOver_def run_fetch del: instanceRun.simps)
  then have "defaultInterceptor examplePlatform ?client
      (answerWith (BString (pageWith ''0b'')) firstRetry) =
     (Inr (answerWith (BOther True ''[object Object]'') secondRetry),
      [Solve (answerWith (BString (pageWith ''0b'')) firstRetry),
       Get ''/aes.js'' ''https://example.com'', Request secondRetry])"
    by (simp add: defaultInterceptor_def createCookieChallengeInterceptor_def
        example_detections clientOver_def run_secondRetry del: instanceRun.simps)
  then show ?thesis
    by (subst instanceRun.simps(2))
      (simp add: example_transport createAxiosClient_def Let_def run_fetch run_secondRetry
        del: instanceRun.simps)
qed

lemma run_exampleRequest:
  "instanceRun (Suc (Suc (Suc n))) examplePlatform (Some ''https://example.com'')
     repeatingTransport exampleRequest =
     Some (Inr (answerWith (BOther True ''[object Object]'') secondRetry),
       [exampleRequest, getConfig ''/aes.js'' ''https://example.com'', firstRetry,
        getConfig ''/aes.js'' ''https://example.com'', secondRetry])"
proof -
  let ?client = "clientOver (Some ''https://example.com'')
    (instanceRun (Suc (Suc n)) examplePlatform (Some ''https://example.com'') repeatingTransport)"
  have "processCookieChallenge examplePlatform
      (answerWith (BString (pageWith ''0a'')) exampleRequest) ?client =
     (client_request ?client firstRetry,
      [Get ''/aes.js'' ''https://example.com'', Request firstRetry])"
    by (rule process_page [OF example_pages(1) _ _ example_retry_hex(1)])
      (simp_all add: clientOver_def run_fetch del: instanceRun.simps)
  then have "defaultInterceptor examplePlatform ?client
      (answerWith (BString (pageWith ''0a'')) exampleRequest) =
     (Inr (answerWith (BOther True ''[object Object]'') secondRetry),
      [Solve (answerWith (BString (pageWith ''0a'')) exampleRequest),
       Get ''/aes.js'' ''https://example.com'', Request firstRetry])"
    by (simp add: defaultInterceptor_def createCookieChallengeInterceptor_def
        example_detections clientOver_def run_firstRetry del: instanceRun.simps)
  then show ?thesis
    by (subst instanceRun.simps(2))
      (simp add: example_transport createAxiosClient_def Let_def run_fetch run_firstRetry
        del: instanceRun.simps)
qed

text \<open>
  At an origin that answers every retry with a challenge page again, a request on the
  instance returns at no depth of nesting: every run waits for the retry of the run below.
\<close>

lemma collect_None: "None \<in> set xs \<Longrightarrow> collect xs = None"
proof (induction xs)
  case Nil
  then show ?case by simp
next
  case (Cons x xs)
  then show ?case
    by (cases x; cases "collect xs") auto
qed

lemma instanceRun_waits:
  assumes "transport config = Inr resp"
    and "ev \<in> set (snd (defaultInterceptor env
      (clientOver dflt (instanceRun n env dflt transport)) resp))"
    and "event_request ev = Some c" "instanceRun n env dflt transport c = None"
  shows "instanceRun (Suc n) env dflt transport config = None"
proof -
  let ?f = "\<lambda>ev. case event_request ev of None \<Rightarrow> Some []
    | Some c \<Rightarrow> map_option snd (instanceRun n env dflt transport c)"
  obtain res evs where h: "defaultInterceptor env
      (clientOver dflt (instanceRun n env dflt transport)) resp = (res, evs)"
    by (cases "defaultInterceptor env (clientOver dflt (instanceRun n env dflt transport)) resp")
  with assms(2) have "ev \<in> set evs"
    by simp
  then have "?f ev \<in> set (map ?f evs)"
    by simp
  with assms(3,4) have "None \<in> set (map ?f evs)"
    by simp
  then have "collect (map ?f evs) = None"
    by (rule collect_None)
  with assms(1) h show ?thesis
    by (simp add: createAxiosClient_def Let_def)
qed

lemma buildRetryUrl_not_script: "buildRetryUrl examplePlatform config base \<noteq> ''/aes.js''"
proof -
  have "last (buildRetryUrl examplePlatform config base) = CHR ''1''"
    by (simp add: buildRetryUrl_def examplePlatform_def url_search_def Let_def)
  then show ?thesis
    by auto
qed

lemma relentless_fetch:
  "instanceRun (Suc n) examplePlatform dflt relentlessTransport (getConfig ''/aes.js'' base) =
     Some (Inr (answerWith (BString echoScript) (getConfig ''/aes.js'' base)),
       [getConfig ''/aes.js'' base])"
  by (simp add: relentlessTransport_def getConfig_def createAxiosClient_def
      defaultInterceptor_def createCookieChallengeInterceptor_def example_detections Let_def)

lemma relentless_never_returns:
  "req_url config \<noteq> Some ''/aes.js'' \<Longrightarrow>
     instanceRun n examplePlatform (Some ''https://example.com'') relentlessTransport config = None"
proof (induction n arbitrary: config)
  case 0
  show ?case by simp
next
  case (Suc n)
  let ?run = "instanceRun n examplePlatform (Some ''https://example.com'') relentlessTransport"
  let ?client = "clientOver (Some ''https://example.com'') ?run"
  let ?page = "answerWith (BString (pageWith ''0a'')) config"
  from Suc.prems have t: "relentlessTransport config = Inr ?page"
    by (simp add: relentlessTransport_def)
  have d: "snd (defaultInterceptor examplePlatform ?client ?page) =
      Solve ?page # snd (processCookieChallenge examplePlatform ?page ?client) @
        (case fst (processCookieChallenge examplePlatform ?page ?client) of
           Inl e \<Rightarrow> [ConsoleError e] | Inr x \<Rightarrow> [])"
    by (simp add: defaultInterceptor_def interceptor_events example_detections)
  show ?case
  proof (cases n)
    case 0
    have "snd (processCookieChallenge examplePlatform ?page ?client) =
        [Get ''/aes.js'' ''https://example.com'']"
      by (simp add: 0 processCookieChallenge_def answerWith_def example_pages resolveBaseURL_def
          clientOver_def loadSlowAES_def)
    with d have "Get ''/aes.js'' ''https://example.com'' \<in>
        set (snd (defaultInterceptor examplePlatform ?client ?page))"
      by simp
    then have e: "Get ''/aes.js'' ''https://example.com'' \<in>
        set (snd (defaultInterceptor examplePlatform ?client ?page))" .
    show ?thesis
      by (rule instanceRun_waits [where transport = relentlessTransport and config = config,
            OF t e]) (simp_all add: 0)
  next
    case (Suc m)
    let ?retry = "config
       \<lparr>req_url := Some (buildRetryUrl examplePlatform config ''https://example.com''),
        req_headers := (req_headers config)(''Cookie'' \<mapsto> ''__test='' @ toHex (toNumbers ''0a''))\<rparr>"
    have "processCookieChallenge examplePlatform ?page ?client =
        (client_request ?client ?retry, [Get ''/aes.js'' ''https://example.com'', Request ?retry])"
      by (rule process_page [OF example_pages(1)])
        (simp_all add: clientOver_def Suc relentless_fetch del: instanceRun.simps)
    with d have e: "Request ?retry \<in>
        set (snd (defaultInterceptor examplePlatform ?client ?page))"
      by simp
    have r: "?run ?retry = None"
      by (rule Suc.IH) (simp add: buildRetryUrl_not_script)
    have q: "event_request (Request ?retry) = Some ?retry"
      by simp
    show ?thesis
      by (rule instanceRun_waits [where transport = relentlessTransport and config = config,
            OF t e q r])
  qed
qed
text \<open>
  Against claim C9 as stated, on the instance that \<open>createAxiosClient\<close> returns.  The
  origin answers the example request with a challenge page and the retry with a challenge
  page again.  The second page does not reach the caller: the handlers of the instance
  resolve it in a nested run, with a second retry, and the caller receives the JSON
  response to that.  Two retry requests are sent for the one request of the caller.
\<close>

theorem C9_repeated_challenge_resolved_again:
  "repeatingTransport firstRetry = Inr (answerWith (BString (pageWith ''0b'')) firstRetry) \<and>
   detectCookieChallenge (Some (answerWith (BString (pageWith ''0b'')) firstRetry)) \<and>
   instanceRun 3 examplePlatform (Some ''https://example.com'') repeatingTransport exampleRequest =
     Some (Inr (answerWith (BOther True ''[object Object]'') secondRetry),
       [exampleRequest, getConfig ''/aes.js'' ''https://example.com'', firstRetry,
        getConfig ''/aes.js'' ''https://example.com'', secondRetry])"
  using run_exampleRequest [of 0]
  by (simp add: example_transport example_detections numeral_3_eq_3 del: instanceRun.simps)

text \<open>
  Claim C9, amended.  One run of the solver records at most one retry request on its
  client, and so does one run of the handler, which calls the solver at most once; when a
  retry request is recorded, the outcome of the handler is the client's answer to that
  request as it is, unexamined.  On the instance that \<open>createAxiosClient\<close> returns, the
  client is the instance itself: whenever a request is answered with a challenge page and
  returns, at any depth of nesting, its outcome is the outcome of the retry as a request
  on the instance, that is, after the handlers have run on the answer to the retry again.
  A challenge page in answer to the retry is therefore resolved by a nested run, and the
  code sets no bound on the nesting.
\<close>

theorem C9_single_retry_per_run:
  "retries (snd (processCookieChallenge env r client)) \<le> 1 \<and>
   retries (snd (createCookieChallengeInterceptor client detectFn (processCookieChallenge env) r)) \<le> 1 \<and>
   length (filter is_Solve
     (snd (createCookieChallengeInterceptor client detectFn (processCookieChallenge env) r))) \<le> 1 \<and>
   (Request cfg \<in> set (snd (createCookieChallengeInterceptor client detectFn
        (processCookieChallenge env) r)) \<longrightarrow>
      fst (createCookieChallengeInterceptor client detectFn (processCookieChallenge env) r) =
        client_request client cfg) \<and>
   (transport config = Inr resp \<and> detectCookieChallenge (Some resp) \<and>
    Request retry \<in> set (snd (processCookieChallenge env resp
      (clientOver dflt (instanceRun n env dflt transport)))) \<and>
    instanceRun (Suc n) env dflt transport config = Some (res, w) \<longrightarrow>
      (\<exists>w'. instanceRun n env dflt transport retry = Some (res, w')))"
proof (intro conjI impI)
  show "retries (snd (processCookieChallenge env r client)) \<le> 1"
    by (rule processCookieChallenge_retries)
  show "retries (snd (createCookieChallengeInterceptor client detectFn
      (processCookieChallenge env) r)) \<le> 1"
    using processCookieChallenge_retries [of env r client]
    by (simp add: interceptor_events retries_def split: sum.splits)
  show "length (filter is_Solve (snd (createCookieChallengeInterceptor client detectFn
      (processCookieChallenge env) r))) \<le> 1"
    using processCookieChallenge_events [of env r client]
    by (auto simp: interceptor_events split: sum.splits)
next
  assume "Request cfg \<in> set (snd (createCookieChallengeInterceptor client detectFn
      (processCookieChallenge env) r))"
  then have "detectFn r" "Request cfg \<in> set (snd (processCookieChallenge env r client))"
    by (auto simp: interceptor_events split: if_splits sum.splits)
  then show "fst (createCookieChallengeInterceptor client detectFn (processCookieChallenge env) r) =
      client_request client cfg"
    by (simp add: interceptor_outcome processCookieChallenge_outcome)
next
  assume "transport config = Inr resp \<and> detectCookieChallenge (Some resp) \<and>
    Request retry \<in> set (snd (processCookieChallenge env resp
      (clientOver dflt (instanceRun n env dflt transport)))) \<and>
    instanceRun (Suc n) env dflt transport config = Some (res, w)"
  then show "\<exists>w'. instanceRun n env dflt transport retry = Some (res, w')"
    by (intro instance_reenters [of transport config resp retry env dflt n res w]) blast+
qed

theorem C9_single_retry_per_run_witness:
  "defaultInterceptor examplePlatform challengingClient challengeResponse =
     (Inr challengeResponse,
      [Solve challengeResponse, Get ''/aes.js'' ''https://example.com'', Request exampleRetry]) \<and>
   detectCookieChallenge (Some challengeResponse) \<and>
   fst (defaultInterceptor examplePlatform challengingClient challengeResponse) =
     client_request challengingClient exampleRetry \<and>
   instanceRun 3 examplePlatform (Some ''https://example.com'') repeatingTransport exampleRequest =
     Some (Inr (answerWith (BOther True ''[object Object]'') secondRetry),
       [exampleRequest, getConfig ''/aes.js'' ''https://example.com'', firstRetry,
        getConfig ''/aes.js'' ''https://example.com'', secondRetry]) \<and>
   (\<exists>w'. instanceRun 2 examplePlatform (Some ''https://example.com'') repeatingTransport firstRetry =
     Some (Inr (answerWith (BOther True ''[object Object]'') secondRetry), w'))"
proof -
  note t = C9_single_retry_per_run
  have p: "processCookieChallenge examplePlatform challengeResponse challengingClient =
     (Inr challengeResponse, [Get ''/aes.js'' ''https://example.com'', Request exampleRetry])"
    by (simp add: process_example challengingClient_def exampleClient_def servingClient_def)
  have d: "defaultInterceptor examplePlatform challengingClient challengeResponse =
     (Inr challengeResponse,
      [Solve challengeResponse, Get ''/aes.js'' ''https://example.com'', Request exampleRetry])"
    by (simp add: defaultInterceptor_def createCookieChallengeInterceptor_def p
        detect_challengeResponse)
  then have "Request exampleRetry \<in> set (snd (createCookieChallengeInterceptor challengingClient
      (\<lambda>r. detectCookieChallenge (Some r)) (processCookieChallenge examplePlatform)
      challengeResponse))"
    by (simp add: defaultInterceptor_def)
  with t [where env = examplePlatform and r = challengeResponse and client = challengingClient
      and detectFn = "\<lambda>r. detectCookieChallenge (Some r)" and cfg = exampleRetry]
  have o: "fst (defaultInterceptor examplePlatform challengingClient challengeResponse) =
     client_request challengingClient exampleRetry"
    by (simp add: defaultInterceptor_def)
  have run3: "instanceRun (Suc 2) examplePlatform (Some ''https://example.com'')
      repeatingTransport exampleRequest =
     Some (Inr (answerWith (BOther True ''[object Object]'') secondRetry),
       [exampleRequest, getConfig ''/aes.js'' ''https://example.com'', firstRetry,
        getConfig ''/aes.js'' ''https://example.com'', secondRetry])"
    using run_exampleRequest [of 0] by (simp add: numeral_2_eq_2 del: instanceRun.simps)
  let ?client = "clientOver (Some ''https://example.com'')
    (instanceRun 2 examplePlatform (Some ''https://example.com'') repeatingTransport)"
  have "processCookieChallenge examplePlatform
      (answerWith (BString (pageWith ''0a'')) exampleRequest) ?client =
     (client_request ?client firstRetry,
      [Get ''/aes.js'' ''https://example.com'', Request firstRetry])"
    by (rule process_page [OF example_pages(1) _ _ example_retry_hex(1)])
      (simp_all add: clientOver_def run_fetch numeral_2_eq_2 del: instanceRun.simps)
  then have m: "Request firstRetry \<in> set (snd (processCookieChallenge examplePlatform
      (answerWith (BString (pageWith ''0a'')) exampleRequest) ?client))"
    by simp
  have n: "\<exists>w'. instanceRun 2 examplePlatform (Some ''https://example.com'') repeatingTransport
      firstRetry = Some (Inr (answerWith (BOther True ''[object Object]'') secondRetry), w')"
    by (rule mp [OF conjunct2 [OF conjunct2 [OF conjunct2 [OF conjunct2
        [OF t [where transport = repeatingTransport and config = exampleRequest
          and resp = "answerWith (BString (pageWith ''0a'')) exampleRequest"
          and retry = firstRetry and env = examplePlatform
          and dflt = "Some ''https://example.com''" and n = 2
          and res = "Inr (answerWith (BOther True ''[object Object]'') secondRetry)"
          and w = "[exampleRequest, getConfig ''/aes.js'' ''https://example.com'', firstRetry,
            getConfig ''/aes.js'' ''https://example.com'', secondRetry]"]]]]]])
      (intro conjI example_transport(2) example_detections(1) m run3)
  have run3': "instanceRun 3 examplePlatform (Some ''https://example.com'') repeatingTransport
      exampleRequest =
     Some (Inr (answerWith (BOther True ''[object Object]'') secondRetry),
       [exampleRequest, getConfig ''/aes.js'' ''https://example.com'', firstRetry,
        getConfig ''/aes.js'' ''https://example.com'', secondRetry])"
    using run_exampleRequest [of 0] by (simp add: numeral_3_eq_3 del: instanceRun.simps)
  show ?thesis
    by (intro conjI) (rule d detect_challengeResponse o run3' n)+
qed

section \<open>The origin of the decryption routine\<close>

lemma extract_urllessResponse:
  "extractEncryptedValues (String_body (resp_data urllessResponse)) =
     Some \<lparr>enc_a = ''f655ba9d09a112d4968c63579db590b4'',
           enc_b = ''98344c2eee86c3994890592585b49f80'',
           enc_c = ''fdd9f8ac7a55834004f21a883ac3e49e''\<rparr>"
  by (simp add: urllessResponse_def challengeResponse_def extract_challengeHtml)

text \<open>
  What the block does in each case.  The request's own base is reached only from a
  request that has a url which does not parse; a failure leaves the client untouched.
\<close>

lemma resolveBaseURL_cases:
  "defaults_baseURL client = Some b \<Longrightarrow> b \<noteq> [] \<Longrightarrow> resolveBaseURL env client req = Inr b"
  "\<not> truthy (defaults_baseURL client) \<Longrightarrow> req_url req = Some u \<Longrightarrow> u \<noteq> [] \<Longrightarrow>
     new_URL env u None = Some parsed \<Longrightarrow>
     resolveBaseURL env client req = Inr (protocol parsed @ ''//'' @ host parsed)"
  "\<not> truthy (defaults_baseURL client) \<Longrightarrow> req_url req = Some u \<Longrightarrow> u \<noteq> [] \<Longrightarrow>
     new_URL env u None = None \<Longrightarrow> req_baseURL req = Some rb \<Longrightarrow> rb \<noteq> [] \<Longrightarrow>
     resolveBaseURL env client req = Inr rb"
  "\<not> truthy (defaults_baseURL client) \<Longrightarrow> req_url req = Some u \<Longrightarrow> u \<noteq> [] \<Longrightarrow>
     new_URL env u None = None \<Longrightarrow> \<not> truthy (req_baseURL req) \<Longrightarrow>
     resolveBaseURL env client req = Inl noBaseURL"
  "\<not> truthy (defaults_baseURL client) \<Longrightarrow> \<not> truthy (req_url req) \<Longrightarrow>
     resolveBaseURL env client req = Inl noBaseURL"
  by (auto simp: resolveBaseURL_def split: option.splits)

lemma no_base_no_call:
  "resolveBaseURL env client (resp_config r) = Inl e \<Longrightarrow>
     snd (processCookieChallenge env r client) = []"
  by (simp add: processCookieChallenge_def Let_def split: option.splits)

text \<open>
  Claim C4, at the input where the code departs from it.  The client has no default
  origin and the request has no url, so neither of the first two sources resolves; the
  request has its own base \<open>https://example.com\<close>.  The solver does not use that base: it
  fails with the error that no base URL could be determined, before any call on the
  client.  The request's base is only consulted inside the handler of a failed parse of
  the url, which a request without url never reaches.
\<close>

theorem C4_request_base_unused_without_url:
  "defaults_baseURL bareClient = None \<and>
   req_url (resp_config urllessResponse) = None \<and>
   req_baseURL (resp_config urllessResponse) = Some ''https://example.com'' \<and>
   processCookieChallenge env urllessResponse bareClient =
     (Inl (Error ''Could not determine base URL for slowAES loading'' None), [])"
proof -
  have "resolveBaseURL env bareClient (resp_config urllessResponse) = Inl noBaseURL"
    by (simp add: resolveBaseURL_def bareClient_def exampleClient_def servingClient_def
        urllessResponse_def
        exampleRequest_def)
  then show ?thesis
    by (simp add: processCookieChallenge_def extract_urllessResponse noBaseURL_def)
      (simp add: bareClient_def exampleClient_def servingClient_def urllessResponse_def
        exampleRequest_def)
qed

section \<open>The loader\<close>

text \<open>
  Against claim C5 as stated: the origin serves the script \<open>var slowAES = {};\<close>.  The
  fetch succeeds, the object that results exposes no decrypt function under either
  shape, and the loader returns that object; it does not fail.
\<close>

theorem C5_loader_returns_unusable_object:
  "loadSlowAES examplePlatform (servingClient blankScript) ''https://example.com'' =
     (Inr empty_object, [Get ''/aes.js'' ''https://example.com'']) \<and>
   aes_decrypt empty_object = None \<and> aes_modeOfOperation empty_object = None"
  by (simp add: loadSlowAES_def example_fetch run_example_scripts)
    (simp add: empty_object_def)

text \<open>
  The two ways a script can offer only \<open>modeOfOperation.decrypt\<close>.  When it attaches the
  property to the object it is given, the loader returns that object and the solver uses
  the nested function.  When it rebinds \<open>slowAES\<close>, the loader finds no \<open>decrypt\<close> on
  the result and returns its own, still empty, object.
\<close>

lemma loader_on_nested_scripts:
  "fst (loadSlowAES examplePlatform (servingClient attachScript) ''https://example.com'') =
     Inr nestedObject"
  "fst (loadSlowAES examplePlatform (servingClient rebindScript) ''https://example.com'') =
     Inr empty_object"
  by (simp_all add: loadSlowAES_def example_fetch run_example_scripts)
    (simp_all add: nestedObject_def)

text \<open>
  Claim C5, amended.  The loader fails exactly when the fetch or the evaluation of the
  script throws, and then with the error \<open>Failed to load slowAES:\<close> followed by the
  message of the cause.  When the evaluated script returns an object with a \<open>decrypt\<close>
  function of its own, the loader returns that object.  Whenever fetch and evaluation
  succeed the loader returns an object, usable or not.  The solver accepts either shape
  of the object the loader returns: it calls \<open>decrypt\<close>, else \<open>modeOfOperation.decrypt\<close>,
  on the ciphertext, the mode 2, the key and the vector of the page; when that call
  throws, the solver fails with what it threw, and when it returns bytes, the solver
  sends the retry request with the cookie \<open>__test=\<close> followed by the hexadecimal text of
  those bytes, and its outcome is the answer to that request.  When the object has
  neither function, the solver fails with \<open>slowAES.decrypt function not found\<close> after
  the fetch and issues no retry request.
\<close>

theorem C5_loader_and_decrypt_lookup:
  "(client_get client ''/aes.js'' base = Inl e \<longrightarrow>
      fst (loadSlowAES env client base) =
        Inl (Error (''Failed to load slowAES: '' @ err_message e) None)) \<and>
   (client_get client ''/aes.js'' base = Inr resp \<longrightarrow>
      (run_Function env (loaderCode (String_body (resp_data resp))) = Inl e \<longrightarrow>
         fst (loadSlowAES env client base) =
           Inl (Error (''Failed to load slowAES: '' @ err_message e) None)) \<and>
      (run_Function env (loaderCode (String_body (resp_data resp))) = Inr (Some obj, param) \<and>
       aes_decrypt obj = Some f \<longrightarrow>
         fst (loadSlowAES env client base) = Inr obj) \<and>
      (run_Function env (loaderCode (String_body (resp_data resp))) = Inr (res, param) \<longrightarrow>
         (\<exists>obj'. fst (loadSlowAES env client base) = Inr obj'))) \<and>
   (aes_decrypt obj = Some f \<longrightarrow> selectDecrypt obj = Some f) \<and>
   (aes_decrypt obj = None \<and> aes_modeOfOperation obj = Some m \<and> mo_decrypt m = Some f \<longrightarrow>
      selectDecrypt obj = Some f) \<and>
   (extractEncryptedValues (String_body (resp_data r)) = Some enc \<and>
    resolveBaseURL env client (resp_config r) = Inr base \<and>
    fst (loadSlowAES env client base) = Inr obj \<and>
    aes_decrypt obj = None \<and>
    (aes_modeOfOperation obj = None \<or>
     (\<exists>m'. aes_modeOfOperation obj = Some m' \<and> mo_decrypt m' = None)) \<longrightarrow>
      processCookieChallenge env r client =
        (Inl (Error ''slowAES.decrypt function not found'' None), [Get ''/aes.js'' base])) \<and>
   (extractEncryptedValues (String_body (resp_data r)) = Some enc \<and>
    resolveBaseURL env client (resp_config r) = Inr base \<and>
    fst (loadSlowAES env client base) = Inr obj \<and>
    (aes_decrypt obj = Some f \<or>
     aes_decrypt obj = None \<and> aes_modeOfOperation obj = Some m \<and> mo_decrypt m = Some f) \<longrightarrow>
      (f (toNumbers (enc_c enc)) 2 (toNumbers (enc_a enc)) (toNumbers (enc_b enc)) = Inl e \<longrightarrow>
         processCookieChallenge env r client = (Inl e, [Get ''/aes.js'' base])) \<and>
      (f (toNumbers (enc_c enc)) 2 (toNumbers (enc_a enc)) (toNumbers (enc_b enc)) =
         Inr decrypted \<longrightarrow>
         processCookieChallenge env r client =
           (client_request client
              ((resp_config r)
                 \<lparr>req_url := Some (buildRetryUrl env (resp_config r) base),
                  req_headers := (req_headers (resp_config r))
                    (''Cookie'' \<mapsto> ''__test='' @ toHex decrypted)\<rparr>),
            [Get ''/aes.js'' base,
             Request ((resp_config r)
                 \<lparr>req_url := Some (buildRetryUrl env (resp_config r) base),
                  req_headers := (req_headers (resp_config r))
                    (''Cookie'' \<mapsto> ''__test='' @ toHex decrypted)\<rparr>)])))"
proof (intro conjI impI)
  assume "client_get client ''/aes.js'' base = Inl e"
  then show "fst (loadSlowAES env client base) =
      Inl (Error (''Failed to load slowAES: '' @ err_message e) None)"
    by (simp add: loadSlowAES_def)
next
  assume "client_get client ''/aes.js'' base = Inr resp"
    and "run_Function env (loaderCode (String_body (resp_data resp))) = Inl e"
  then show "fst (loadSlowAES env client base) =
      Inl (Error (''Failed to load slowAES: '' @ err_message e) None)"
    by (simp add: loadSlowAES_def)
next
  assume "client_get client ''/aes.js'' base = Inr resp"
    and "run_Function env (loaderCode (String_body (resp_data resp))) = Inr (Some obj, param) \<and>
       aes_decrypt obj = Some f"
  then show "fst (loadSlowAES env client base) = Inr obj"
    by (simp add: loadSlowAES_def)
next
  assume "client_get client ''/aes.js'' base = Inr resp"
    and "run_Function env (loaderCode (String_body (resp_data resp))) = Inr (res, param)"
  then show "\<exists>obj'. fst (loadSlowAES env client base) = Inr obj'"
    by (simp add: loadSlowAES_def)
next
  assume "aes_decrypt obj = Some f"
  then show "selectDecrypt obj = Some f"
    by (simp add: selectDecrypt_def)
next
  assume "aes_decrypt obj = None \<and> aes_modeOfOperation obj = Some m \<and> mo_decrypt m = Some f"
  then show "selectDecrypt obj = Some f"
    by (simp add: selectDecrypt_def)
next
  assume a: "extractEncryptedValues (String_body (resp_data r)) = Some enc \<and>
    resolveBaseURL env client (resp_config r) = Inr base \<and>
    fst (loadSlowAES env client base) = Inr obj \<and>
    aes_decrypt obj = None \<and>
    (aes_modeOfOperation obj = None \<or>
     (\<exists>m'. aes_modeOfOperation obj = Some m' \<and> mo_decrypt m' = None))"
  then have s: "selectDecrypt obj = None"
    by (auto simp: selectDecrypt_def)
  from a have "loadSlowAES env client base = (Inr obj, [Get ''/aes.js'' base])"
    using loadSlowAES_events [of env client base]
    by (cases "loadSlowAES env client base") simp
  with a s show "processCookieChallenge env r client =
        (Inl (Error ''slowAES.decrypt function not found'' None), [Get ''/aes.js'' base])"
    by (simp add: processCookieChallenge_def)
next
  assume a: "extractEncryptedValues (String_body (resp_data r)) = Some enc \<and>
    resolveBaseURL env client (resp_config r) = Inr base \<and>
    fst (loadSlowAES env client base) = Inr obj \<and>
    (aes_decrypt obj = Some f \<or>
     aes_decrypt obj = None \<and> aes_modeOfOperation obj = Some m \<and> mo_decrypt m = Some f)"
  then have s: "selectDecrypt obj = Some f"
    by (auto simp: selectDecrypt_def)
  from a have l: "loadSlowAES env client base = (Inr obj, [Get ''/aes.js'' base])"
    using loadSlowAES_events [of env client base]
    by (cases "loadSlowAES env client base") simp
  {
    assume "f (toNumbers (enc_c enc)) 2 (toNumbers (enc_a enc)) (toNumbers (enc_b enc)) = Inl e"
    with a s l show "processCookieChallenge env r client = (Inl e, [Get ''/aes.js'' base])"
      by (simp add: processCookieChallenge_def)
  next
    assume "f (toNumbers (enc_c enc)) 2 (toNumbers (enc_a enc)) (toNumbers (enc_b enc)) =
      Inr decrypted"
    with a s l show "processCookieChallenge env r client =
        (client_request client
           ((resp_config r)
              \<lparr>req_url := Some (buildRetryUrl env (resp_config r) base),
               req_headers := (req_headers (resp_config r))
                 (''Cookie'' \<mapsto> ''__test='' @ toHex decrypted)\<rparr>),
         [Get ''/aes.js'' base,
          Request ((resp_config r)
              \<lparr>req_url := Some (buildRetryUrl env (resp_config r) base),
               req_headers := (req_headers (resp_config r))
                 (''Cookie'' \<mapsto> ''__test='' @ toHex decrypted)\<rparr>)])"
      by (simp add: processCookieChallenge_def Let_def)
  }
qed

theorem C5_loader_and_decrypt_lookup_witness:
  "fst (loadSlowAES examplePlatform offlineClient ''https://example.com'') =
     Inl (Error ''Failed to load slowAES: Network Error'' None) \<and>
   fst (loadSlowAES examplePlatform (servingClient brokenScript) ''https://example.com'') =
     Inl (Error (''Failed to load slowAES: Unexpected token '' @ [CHR 0x27] @ ''typeof'' @
       [CHR 0x27]) None) \<and>
   fst (loadSlowAES examplePlatform exampleClient ''https://example.com'') = Inr directObject \<and>
   selectDecrypt directObject = Some stubDecrypt \<and>
   selectDecrypt nestedObject = Some stubDecrypt \<and>
   processCookieChallenge examplePlatform challengeResponse (servingClient blankScript) =
     (Inl (Error ''slowAES.decrypt function not found'' None),
      [Get ''/aes.js'' ''https://example.com'']) \<and>
   processCookieChallenge examplePlatform challengeResponse (servingClient directScript) =
     (Inr jsonResponse, [Get ''/aes.js'' ''https://example.com'', Request exampleRetry]) \<and>
   processCookieChallenge examplePlatform challengeResponse (servingClient attachScript) =
     (Inr jsonResponse, [Get ''/aes.js'' ''https://example.com'', Request exampleRetry]) \<and>
   processCookieChallenge examplePlatform challengeResponse (servingClient throwingScript) =
     (Inl (Error ''Invalid key size'' None), [Get ''/aes.js'' ''https://example.com''])"
proof -
  note t = C5_loader_and_decrypt_lookup
  let ?enc = "\<lparr>enc_a = ''f655ba9d09a112d4968c63579db590b4'',
            enc_b = ''98344c2eee86c3994890592585b49f80'',
            enc_c = ''fdd9f8ac7a55834004f21a883ac3e49e''\<rparr>"
  have 1: "fst (loadSlowAES examplePlatform offlineClient ''https://example.com'') =
     Inl (Error ''Failed to load slowAES: Network Error'' None)"
    using t [where client = offlineClient and base = "''https://example.com''"
        and e = "Error ''Network Error'' None" and env = examplePlatform]
    by (simp add: offlineClient_def)
  have 2: "fst (loadSlowAES examplePlatform (servingClient brokenScript) ''https://example.com'') =
     Inl (Error (''Failed to load slowAES: Unexpected token '' @ [CHR 0x27] @ ''typeof'' @
       [CHR 0x27]) None)"
    using t [where client = "servingClient brokenScript" and base = "''https://example.com''"
        and e = syntaxError and env = examplePlatform
        and resp = "scriptResponse brokenScript"]
    by (simp add: example_fetch run_example_scripts) (simp add: syntaxError_def)
  have 3: "fst (loadSlowAES examplePlatform exampleClient ''https://example.com'') =
     Inr directObject"
    using t [where client = "servingClient directScript" and base = "''https://example.com''"
        and env = examplePlatform and resp = "scriptResponse directScript"
        and obj = directObject and param = empty_object and f = stubDecrypt]
    by (simp add: example_fetch run_example_scripts exampleClient_def)
      (simp add: directObject_def)
  have 4: "selectDecrypt directObject = Some stubDecrypt"
    using t [where obj = directObject and f = stubDecrypt]
    by (simp add: directObject_def)
  have 5: "selectDecrypt nestedObject = Some stubDecrypt"
    using t [where obj = nestedObject and f = stubDecrypt
        and m = "\<lparr>mo_decrypt = Some stubDecrypt\<rparr>"]
    by (simp add: nestedObject_def)
  have x: "extractEncryptedValues (String_body (resp_data challengeResponse)) = Some ?enc"
    by (simp add: challengeResponse_def extract_challengeHtml)
  have b: "resolveBaseURL examplePlatform (servingClient script) (resp_config challengeResponse) =
      Inr ''https://example.com''" for script
    by (rule example_base)
  have l: "fst (loadSlowAES examplePlatform (servingClient blankScript) ''https://example.com'') =
      Inr empty_object"
    "fst (loadSlowAES examplePlatform (servingClient directScript) ''https://example.com'') =
      Inr directObject"
    "fst (loadSlowAES examplePlatform (servingClient attachScript) ''https://example.com'') =
      Inr nestedObject"
    "fst (loadSlowAES examplePlatform (servingClient throwingScript) ''https://example.com'') =
      Inr throwingObject"
    by (simp_all add: loadSlowAES_def example_fetch run_example_scripts)
      (simp_all add: directObject_def nestedObject_def throwingObject_def)
  have o: "aes_decrypt empty_object = None" "aes_modeOfOperation empty_object = None"
    "aes_decrypt directObject = Some stubDecrypt"
    "aes_decrypt nestedObject = None"
    "aes_modeOfOperation nestedObject = Some \<lparr>mo_decrypt = Some stubDecrypt\<rparr>"
    "mo_decrypt \<lparr>mo_decrypt = Some stubDecrypt\<rparr> = Some stubDecrypt"
    "aes_decrypt throwingObject = Some throwingDecrypt"
    by (simp_all add: empty_object_def directObject_def nestedObject_def throwingObject_def)
  have c: "stubDecrypt (toNumbers (enc_c ?enc)) 2 (toNumbers (enc_a ?enc))
      (toNumbers (enc_b ?enc)) = Inr [Num 1, Num 171]"
    "throwingDecrypt (toNumbers (enc_c ?enc)) 2 (toNumbers (enc_a ?enc))
      (toNumbers (enc_b ?enc)) = Inl (Error ''Invalid key size'' None)"
    by (simp_all add: stubDecrypt_def throwingDecrypt_def)
  have q: "(resp_config challengeResponse)
      \<lparr>req_url := Some (buildRetryUrl examplePlatform (resp_config challengeResponse)
         ''https://example.com''),
       req_headers := (req_headers (resp_config challengeResponse))
         (''Cookie'' \<mapsto> ''__test='' @ toHex [Num 1, Num 171])\<rparr> = exampleRetry"
    by (simp add: challengeResponse_def toHex_example buildRetryUrl_def exampleRequest_def
        exampleRetry_def url_search_def examplePlatform_def Let_def)
  have a: "client_request (servingClient script) cfg = Inr jsonResponse" for script cfg
    by (simp add: servingClient_def)
  have 6: "processCookieChallenge examplePlatform challengeResponse
      (servingClient blankScript) =
     (Inl (Error ''slowAES.decrypt function not found'' None),
      [Get ''/aes.js'' ''https://example.com''])"
    using t [where r = challengeResponse and env = examplePlatform
        and client = "servingClient blankScript" and base = "''https://example.com''"
        and obj = empty_object and enc = ?enc] x b l(1) o(1,2)
    by blast
  have 7: "processCookieChallenge examplePlatform challengeResponse
      (servingClient directScript) =
     (Inr jsonResponse, [Get ''/aes.js'' ''https://example.com'', Request exampleRetry])"
    using t [where r = challengeResponse and env = examplePlatform
        and client = "servingClient directScript" and base = "''https://example.com''"
        and obj = directObject and enc = ?enc and f = stubDecrypt
        and decrypted = "[Num 1, Num 171]"] x b l(2) o(3) c(1)
    unfolding q a by blast
  have 8: "processCookieChallenge examplePlatform challengeResponse
      (servingClient attachScript) =
     (Inr jsonResponse, [Get ''/aes.js'' ''https://example.com'', Request exampleRetry])"
    using t [where r = challengeResponse and env = examplePlatform
        and client = "servingClient attachScript" and base = "''https://example.com''"
        and obj = nestedObject and enc = ?enc and f = stubDecrypt
        and m = "\<lparr>mo_decrypt = Some stubDecrypt\<rparr>"
        and decrypted = "[Num 1, Num 171]"] x b l(3) o(4,5,6) c(1)
    unfolding q a by blast
  have 9: "processCookieChallenge examplePlatform challengeResponse
      (servingClient throwingScript) =
     (Inl (Error ''Invalid key size'' None), [Get ''/aes.js'' ''https://example.com''])"
    using t [where r = challengeResponse and env = examplePlatform
        and client = "servingClient throwingScript" and base = "''https://example.com''"
        and obj = throwingObject and enc = ?enc and f = throwingDecrypt
        and e = "Error ''Invalid key size'' None"] x b l(4) o(7) c(2)
    by blast
  show ?thesis
    by (intro conjI) (rule 1 2 3 4 5 6 7 8 9)+
qed

section \<open>The retry request\<close>

lemma searchParams_set_name:
  "filter (\<lambda>p. fst p = name) (searchParams_set name v ps) = [(name, v)]"
  by (induction ps) (auto simp: filter_empty_conv)

lemma searchParams_set_others:
  "filter (\<lambda>p. fst p \<noteq> name) (searchParams_set name v ps) = filter (\<lambda>p. fst p \<noteq> name) ps"
proof (induction ps)
  case Nil
  show ?case by simp
next
  case (Cons p ps)
  have "filter (\<lambda>p. fst p \<noteq> name) (filter (\<lambda>(k', w'). k' \<noteq> name) ps) =
      filter (\<lambda>p. fst p \<noteq> name) ps"
    by (simp add: case_prod_beta)
  with Cons show ?case
    by (cases p) simp
qed

lemma retry_request_form:
  assumes "Request cfg \<in> set (snd (processCookieChallenge env r client))"
  obtains enc base obj decrypt decrypted where
    "extractEncryptedValues (String_body (resp_data r)) = Some enc"
    "resolveBaseURL env client (resp_config r) = Inr base"
    "fst (loadSlowAES env client base) = Inr obj"
    "selectDecrypt obj = Some decrypt"
    "decrypt (toNumbers (enc_c enc)) 2 (toNumbers (enc_a enc)) (toNumbers (enc_b enc)) =
       Inr decrypted"
    "cfg = (resp_config r)
       \<lparr>req_url := Some (buildRetryUrl env (resp_config r) base),
        req_headers := (req_headers (resp_config r))(''Cookie'' \<mapsto> ''__test='' @ toHex decrypted)\<rparr>"
proof (cases "extractEncryptedValues (String_body (resp_data r))")
  case None
  with assms show ?thesis
    by (simp add: processCookieChallenge_def)
next
  case (Some enc)
  note enc = Some
  show ?thesis
  proof (cases "resolveBaseURL env client (resp_config r)")
    case (Inl e)
    with enc assms show ?thesis
      by (simp add: processCookieChallenge_def)
  next
    case (Inr base)
    note base = Inr
    obtain res evs where l: "loadSlowAES env client base = (res, evs)"
      by (cases "loadSlowAES env client base")
    with loadSlowAES_events [of env client base] have evs: "evs = [Get ''/aes.js'' base]"
      by simp
    show ?thesis
    proof (cases res)
      case (Inl e)
      with enc base l evs assms show ?thesis
        by (simp add: processCookieChallenge_def)
    next
      case (Inr obj)
      note obj = Inr
      show ?thesis
      proof (cases "selectDecrypt obj")
        case None
        with enc base l evs obj assms show ?thesis
          by (simp add: processCookieChallenge_def)
      next
        case (Some decrypt)
        note dec = Some
        show ?thesis
        proof (cases "decrypt (toNumbers (enc_c enc)) 2 (toNumbers (enc_a enc))
            (toNumbers (enc_b enc))")
          case (Inl e)
          with enc base l evs obj dec assms show ?thesis
            by (simp add: processCookieChallenge_def)
        next
          case (Inr decrypted)
          with enc base l evs obj dec assms
          have "cfg = (resp_config r)
             \<lparr>req_url := Some (buildRetryUrl env (resp_config r) base),
              req_headers := (req_headers (resp_config r))
                (''Cookie'' \<mapsto> ''__test='' @ toHex decrypted)\<rparr>"
            by (simp add: processCookieChallenge_def Let_def)
          moreover from l obj have "fst (loadSlowAES env client base) = Inr obj"
            by simp
          ultimately show ?thesis
            using that enc base dec Inr by blast
        qed
      qed
    qed
  qed
qed

lemma buildRetryUrl_parsed:
  assumes "new_URL env (case req_url req of Some u \<Rightarrow> u | None \<Rightarrow> []) (Some base) = Some u"
  shows "buildRetryUrl env req base =
     pathname u @ url_search (serialize env (searchParams_set ''i'' ''1'' (searchParams u)))"
  using assms by (cases "req_url req") (auto simp: buildRetryUrl_def)

lemma buildRetryUrl_fallback:
  assumes "new_URL env (case req_url req of Some u \<Rightarrow> u | None \<Rightarrow> []) (Some base) = None"
  shows "buildRetryUrl env req base =
     (case req_url req of Some u \<Rightarrow> u | None \<Rightarrow> []) @
     (if occurs_in ''?'' (case req_url req of Some u \<Rightarrow> u | None \<Rightarrow> []) then ''&'' else ''?'') @
     ''i=1''"
  using assms by (cases "req_url req") (auto simp: buildRetryUrl_def includes_str_iff)

text \<open>
  Against claim C2 as stated: the example request carries the cookie \<open>session=abc\<close>; the
  retry request built from it has the Cookie header \<open>__test=01ab\<close> and nothing else in
  it.  The derived cookie replaces the Cookie header, it is not merged into it.
\<close>

theorem C2_cookie_header_replaced:
  "snd (processCookieChallenge examplePlatform challengeResponse exampleClient) =
     [Get ''/aes.js'' ''https://example.com'', Request exampleRetry] \<and>
   req_headers (resp_config challengeResponse) ''Cookie'' = Some ''session=abc'' \<and>
   req_headers exampleRetry ''Cookie'' = Some ''__test=01ab'' \<and>
   \<not> includes_str ''__test=01ab'' ''session=abc''"
  by (simp add: process_example exampleClient_def servingClient_def)
    (simp add: challengeResponse_def exampleRequest_def exampleRetry_def)

text \<open>
  Claim C2, amended.  Whenever the solver issues a retry request, the page yielded the
  three parameters, an origin was resolved, the routine was loaded and its decrypt
  function returned an array \<open>decrypted\<close>; the retry request has the method, body and base
  of the original request and its headers, except that the header \<open>Cookie\<close> is set to
  exactly \<open>__test=\<close> followed by \<open>toHex decrypted\<close> (lowercase hexadecimal, two digits
  for each byte), whatever Cookie header the original request had.  When the original
  url parses against the origin, the retry url is the path of the parsed url followed by
  the serialized query, in which \<open>i\<close> occurs once, with the value \<open>1\<close>, and all other
  parameters are as before; when it does not parse, the retry url is the original url
  with \<open>i=1\<close> appended after \<open>&\<close> if the url contains a question mark and after \<open>?\<close>
  if not.
\<close>

theorem C2_retry_request:
  "Request cfg \<in> set (snd (processCookieChallenge env r client)) \<longrightarrow>
     (\<exists>enc base obj decrypt decrypted.
        extractEncryptedValues (String_body (resp_data r)) = Some enc \<and>
        resolveBaseURL env client (resp_config r) = Inr base \<and>
        fst (loadSlowAES env client base) = Inr obj \<and>
        selectDecrypt obj = Some decrypt \<and>
        decrypt (toNumbers (enc_c enc)) 2 (toNumbers (enc_a enc)) (toNumbers (enc_b enc)) =
          Inr decrypted \<and>
        req_method cfg = req_method (resp_config r) \<and>
        req_data cfg = req_data (resp_config r) \<and>
        req_baseURL cfg = req_baseURL (resp_config r) \<and>
        (\<forall>k. k \<noteq> ''Cookie'' \<longrightarrow> req_headers cfg k = req_headers (resp_config r) k) \<and>
        req_headers cfg ''Cookie'' = Some (''__test='' @ toHex decrypted) \<and>
        (\<forall>bytes. (\<forall>x\<in>set bytes. 0 \<le> x \<and> x \<le> 255) \<and> decrypted = map Num bytes \<longrightarrow>
           toHex decrypted = concat (map byteHex bytes)) \<and>
        (\<forall>u. new_URL env (case req_url (resp_config r) of Some x \<Rightarrow> x | None \<Rightarrow> [])
                (Some base) = Some u \<longrightarrow>
           (\<exists>ps. req_url cfg = Some (pathname u @ url_search (serialize env ps)) \<and>
              filter (\<lambda>p. fst p = ''i'') ps = [(''i'', ''1'')] \<and>
              filter (\<lambda>p. fst p \<noteq> ''i'') ps = filter (\<lambda>p. fst p \<noteq> ''i'') (searchParams u))) \<and>
        (new_URL env (case req_url (resp_config r) of Some x \<Rightarrow> x | None \<Rightarrow> [])
           (Some base) = None \<longrightarrow>
           req_url cfg =
             Some ((case req_url (resp_config r) of Some x \<Rightarrow> x | None \<Rightarrow> []) @
               (if occurs_in ''?'' (case req_url (resp_config r) of Some x \<Rightarrow> x | None \<Rightarrow> [])
                then ''&'' else ''?'') @ ''i=1'')))"
proof
  assume "Request cfg \<in> set (snd (processCookieChallenge env r client))"
  then obtain enc base obj decrypt decrypted where
    stages: "extractEncryptedValues (String_body (resp_data r)) = Some enc"
      "resolveBaseURL env client (resp_config r) = Inr base"
      "fst (loadSlowAES env client base) = Inr obj"
      "selectDecrypt obj = Some decrypt"
      "decrypt (toNumbers (enc_c enc)) 2 (toNumbers (enc_a enc)) (toNumbers (enc_b enc)) =
         Inr decrypted"
    and cfg: "cfg = (resp_config r)
       \<lparr>req_url := Some (buildRetryUrl env (resp_config r) base),
        req_headers := (req_headers (resp_config r))(''Cookie'' \<mapsto> ''__test='' @ toHex decrypted)\<rparr>"
    by (rule retry_request_form)
  have same: "req_method cfg = req_method (resp_config r)"
    "req_data cfg = req_data (resp_config r)"
    "req_baseURL cfg = req_baseURL (resp_config r)"
    "\<forall>k. k \<noteq> ''Cookie'' \<longrightarrow> req_headers cfg k = req_headers (resp_config r) k"
    "req_headers cfg ''Cookie'' = Some (''__test='' @ toHex decrypted)"
    by (simp_all add: cfg)
  have hex: "\<forall>bytes. (\<forall>x\<in>set bytes. 0 \<le> x \<and> x \<le> 255) \<and> decrypted = map Num bytes \<longrightarrow>
      toHex decrypted = concat (map byteHex bytes)"
    using toHex_bytes by blast
  have parsed: "\<forall>u. new_URL env (case req_url (resp_config r) of Some x \<Rightarrow> x | None \<Rightarrow> [])
        (Some base) = Some u \<longrightarrow>
      (\<exists>ps. req_url cfg = Some (pathname u @ url_search (serialize env ps)) \<and>
         filter (\<lambda>p. fst p = ''i'') ps = [(''i'', ''1'')] \<and>
         filter (\<lambda>p. fst p \<noteq> ''i'') ps = filter (\<lambda>p. fst p \<noteq> ''i'') (searchParams u))"
  proof (intro allI impI)
    fix u
    assume "new_URL env (case req_url (resp_config r) of Some x \<Rightarrow> x | None \<Rightarrow> [])
        (Some base) = Some u"
    then have "req_url cfg = Some (pathname u @
        url_search (serialize env (searchParams_set ''i'' ''1'' (searchParams u))))"
      by (simp add: cfg buildRetryUrl_parsed)
    then show "\<exists>ps. req_url cfg = Some (pathname u @ url_search (serialize env ps)) \<and>
         filter (\<lambda>p. fst p = ''i'') ps = [(''i'', ''1'')] \<and>
         filter (\<lambda>p. fst p \<noteq> ''i'') ps = filter (\<lambda>p. fst p \<noteq> ''i'') (searchParams u)"
      using searchParams_set_name [of "''i''" "''1''" "searchParams u"]
        searchParams_set_others [of "''i''" "''1''" "searchParams u"]
      by (intro exI [where x = "searchParams_set ''i'' ''1'' (searchParams u)"] conjI)
  qed
  have fallback: "new_URL env (case req_url (resp_config r) of Some x \<Rightarrow> x | None \<Rightarrow> [])
        (Some base) = None \<longrightarrow>
      req_url cfg =
        Some ((case req_url (resp_config r) of Some x \<Rightarrow> x | None \<Rightarrow> []) @
          (if occurs_in ''?'' (case req_url (resp_config r) of Some x \<Rightarrow> x | None \<Rightarrow> [])
           then ''&'' else ''?'') @ ''i=1'')"
    by (simp add: cfg buildRetryUrl_fallback)
  show "\<exists>enc base obj decrypt decrypted.
        extractEncryptedValues (String_body (resp_data r)) = Some enc \<and>
        resolveBaseURL env client (resp_config r) = Inr base \<and>
        fst (loadSlowAES env client base) = Inr obj \<and>
        selectDecrypt obj = Some decrypt \<and>
        decrypt (toNumbers (enc_c enc)) 2 (toNumbers (enc_a enc)) (toNumbers (enc_b enc)) =
          Inr decrypted \<and>
        req_method cfg = req_method (resp_config r) \<and>
        req_data cfg = req_data (resp_config r) \<and>
        req_baseURL cfg = req_baseURL (resp_config r) \<and>
        (\<forall>k. k \<noteq> ''Cookie'' \<longrightarrow> req_headers cfg k = req_headers (resp_config r) k) \<and>
        req_headers cfg ''Cookie'' = Some (''__test='' @ toHex decrypted) \<and>
        (\<forall>bytes. (\<forall>x\<in>set bytes. 0 \<le> x \<and> x \<le> 255) \<and> decrypted = map Num bytes \<longrightarrow>
           toHex decrypted = concat (map byteHex bytes)) \<and>
        (\<forall>u. new_URL env (case req_url (resp_config r) of Some x \<Rightarrow> x | None \<Rightarrow> [])
                (Some base) = Some u \<longrightarrow>
           (\<exists>ps. req_url cfg = Some (pathname u @ url_search (serialize env ps)) \<and>
              filter (\<lambda>p. fst p = ''i'') ps = [(''i'', ''1'')] \<and>
              filter (\<lambda>p. fst p \<noteq> ''i'') ps = filter (\<lambda>p. fst p \<noteq> ''i'') (searchParams u))) \<and>
        (new_URL env (case req_url (resp_config r) of Some x \<Rightarrow> x | None \<Rightarrow> [])
           (Some base) = None \<longrightarrow>
           req_url cfg =
             Some ((case req_url (resp_config r) of Some x \<Rightarrow> x | None \<Rightarrow> []) @
               (if occurs_in ''?'' (case req_url (resp_config r) of Some x \<Rightarrow> x | None \<Rightarrow> [])
                then ''&'' else ''?'') @ ''i=1''))"
    using stages same hex parsed fallback
    by (intro exI conjI)
qed

theorem C2_retry_request_witness:
  "Request exampleRetry \<in>
     set (snd (processCookieChallenge examplePlatform challengeResponse exampleClient)) \<and>
   req_method exampleRetry = req_method (resp_config challengeResponse) \<and>
   req_data exampleRetry = req_data (resp_config challengeResponse) \<and>
   req_headers exampleRetry ''Accept'' = req_headers (resp_config challengeResponse) ''Accept'' \<and>
   req_headers exampleRetry ''Cookie'' = Some ''__test=01ab'' \<and>
   req_url exampleRetry = Some ''/test.php?x=1&i=1''"
proof -
  have m: "Request exampleRetry \<in>
      set (snd (processCookieChallenge examplePlatform challengeResponse exampleClient))"
    by (simp add: process_example exampleClient_def servingClient_def)
  note c = mp [OF C2_retry_request [of exampleRetry examplePlatform challengeResponse
        exampleClient] m]
  have a: "req_method exampleRetry = req_method (resp_config challengeResponse)"
    using c by (elim exE conjE)
  have b: "req_data exampleRetry = req_data (resp_config challengeResponse)"
    using c by (elim exE conjE)
  have k: "\<forall>k. k \<noteq> ''Cookie'' \<longrightarrow>
      req_headers exampleRetry k = req_headers (resp_config challengeResponse) k"
    using c by (elim exE conjE)
  have n: "''Accept'' \<noteq> ''Cookie''"
    by simp
  have h: "req_headers exampleRetry ''Accept'' =
      req_headers (resp_config challengeResponse) ''Accept''"
    by (rule mp [OF spec [OF k] n])
  have e: "req_headers exampleRetry ''Cookie'' = Some ''__test=01ab''"
    "req_url exampleRetry = Some ''/test.php?x=1&i=1''"
    by (simp_all add: exampleRetry_def)
  show ?thesis
    by (intro conjI) (rule m a b h e)+
qed

section \<open>The matcher\<close>

lemma startsWith_append: "startsWith (l @ s) l"
  by (simp add: startsWith_iff)

lemma backtrack_first: "lo \<le> k \<Longrightarrow> f k = Some r \<Longrightarrow> backtrack lo k f = Some r"
  by (cases k) auto

lemma backtrack_None: "(\<And>n. lo \<le> n \<Longrightarrow> n \<le> k \<Longrightarrow> f n = None) \<Longrightarrow> backtrack lo k f = None"
  by (induction k) auto

lemma backtrack_Some: "backtrack lo k f = Some r \<Longrightarrow> \<exists>n. lo \<le> n \<and> n \<le> k \<and> f n = Some r"
proof (induction k)
  case 0
  then show ?case by (auto split: if_splits)
next
  case (Suc k)
  show ?case
  proof (cases "f (Suc k)")
    case None
    with Suc.prems have "backtrack lo k f = Some r"
      by (simp split: if_splits)
    with Suc.IH obtain n where "lo \<le> n" "n \<le> k" "f n = Some r"
      by blast
    then show ?thesis
      by (intro exI [where x = n]) simp
  next
    case (Some r')
    with Suc.prems have "lo \<le> Suc k" "f (Suc k) = Some r"
      by (simp_all split: if_splits)
    then show ?thesis
      by (intro exI [where x = "Suc k"]) simp
  qed
qed

lemma backtrack_cong_le: "(\<And>n. n \<le> k \<Longrightarrow> f n = g n) \<Longrightarrow> backtrack lo k f = backtrack lo k g"
proof (induction k)
  case 0
  then show ?case by simp
next
  case (Suc k)
  then have "backtrack lo k f = backtrack lo k g" "f (Suc k) = g (Suc k)"
    by simp_all
  then show ?case by (simp split: option.split)
qed

lemma backtrack_exists: "lo \<le> n \<Longrightarrow> n \<le> k \<Longrightarrow> f n = Some r \<Longrightarrow> \<exists>r'. backtrack lo k f = Some r'"
proof (induction k)
  case 0
  then show ?case by simp
next
  case (Suc k)
  show ?case
  proof (cases "n = Suc k")
    case True
    with Suc.prems show ?thesis by simp
  next
    case False
    with Suc.prems have "n \<le> k" by simp
    with Suc have "\<exists>r'. backtrack lo k f = Some r'" by blast
    with Suc.prems show ?thesis
      by (cases "f (Suc k)") auto
  qed
qed

text \<open>A literal, and a run of a class before a character outside the class.\<close>

lemma match_Lit: "match_items (Lit l # p) (l @ s) = match_items p s"
  by (simp add: startsWith_append)

lemma takeWhile_run:
  assumes "list_all P w" "s = [] \<or> \<not> P (hd s)"
  shows "takeWhile P (w @ s) = w"
proof -
  from assms(2) have "takeWhile P s = []"
    by (cases s) auto
  with assms(1) show ?thesis
    by (simp add: takeWhile_append2 list_all_iff)
qed

lemma match_WsStar:
  assumes "list_all isWhiteSpace w" "s = [] \<or> \<not> isWhiteSpace (hd s)"
    and "match_items p s = Some caps"
  shows "match_items (WsStar # p) (w @ s) = Some caps"
  using assms(3) by (simp add: takeWhile_run [OF assms(1,2)] backtrack_first)

lemma match_WsPlus:
  assumes "list_all isWhiteSpace w" "w \<noteq> []" "s = [] \<or> \<not> isWhiteSpace (hd s)"
    and "match_items p s = Some caps"
  shows "match_items (WsPlus # p) (w @ s) = Some caps"
proof -
  from assms(2) have "1 \<le> length w"
    by (cases w) simp_all
  with assms(4) show ?thesis
    by (simp add: takeWhile_run [OF assms(1,3)] backtrack_first)
qed

lemma match_HexGroup:
  assumes "isHexString v" "s = [] \<or> \<not> isHexDigit (hd s)"
    and "match_items p s = Some caps"
  shows "match_items (HexGroup # p) (v @ s) = Some (v # caps)"
proof -
  from assms(1) have v: "list_all isHexDigit v" "1 \<le> length v"
    by (cases v; simp add: isHexString_def)+
  with assms(3) show ?thesis
    by (simp add: takeWhile_run [OF v(1) assms(2)] backtrack_first)
qed

text \<open>White space before a character that is not the next literal: \<open>\s+\<close> then the literal fails.\<close>

lemma match_WsPlus_Lit_None:
  assumes "list_all isWhiteSpace w" "\<not> isWhiteSpace c" "\<not> isWhiteSpace y" "c \<noteq> y"
  shows "match_items (WsPlus # Lit (c # l) # p) (w @ y # s) = None"
proof -
  have "\<not> startsWith (drop n (w @ y # s)) (c # l)" if "n \<le> length w" for n
  proof (cases "n < length w")
    case True
    then have "drop n (w @ y # s) = (w ! n) # drop (Suc n) w @ y # s"
      by (simp add: Cons_nth_drop_Suc)
    moreover from True assms(1) have "isWhiteSpace (w ! n)"
      by (simp add: list_all_length)
    ultimately show ?thesis
      using assms(2) by auto
  next
    case False
    with that have "drop n (w @ y # s) = y # s" by simp
    with assms(4) show ?thesis by simp
  qed
  moreover have "length (takeWhile isWhiteSpace (w @ y # s)) = length w"
    using takeWhile_run [OF assms(1), of "y # s"] assms(3) by simp
  ultimately show ?thesis
    by (simp add: backtrack_None)
qed

text \<open>A pattern that cannot consume a character matches before it as it matches alone.\<close>

lemma startsWith_before:
  assumes "ch \<notin> set l"
  shows "startsWith (t @ ch # r) l = startsWith t l"
  using assms
proof (induction t l rule: startsWith.induct)
  case (1 s)
  show ?case by simp
next
  case (2 m ms)
  then show ?case by auto
next
  case (3 c s m ms)
  then show ?case by simp
qed

lemma startsWith_length: "startsWith t l \<Longrightarrow> length l \<le> length t"
  by (induction t l rule: startsWith.induct) auto

lemma match_before:
  assumes "\<forall>it\<in>set q. avoids ch it"
  shows "match_items q (t @ ch # r) = match_items q t"
  using assms
proof (induction q arbitrary: t)
  case Nil
  show ?case by simp
next
  case (Cons it q)
  then have ih: "\<And>t. match_items q (t @ ch # r) = match_items q t" and it: "avoids ch it"
    by simp_all
  have cls: "backtrack lo (length (takeWhile P (t @ ch # r))) (\<lambda>n. F (take n (t @ ch # r)) (match_items q (drop n (t @ ch # r)))) =
      backtrack lo (length (takeWhile P t)) (\<lambda>n. F (take n t) (match_items q (drop n t)))"
    if "\<not> P ch" for P lo and F :: "string \<Rightarrow> string list option \<Rightarrow> string list option"
  proof -
    have tw: "takeWhile P (t @ ch # r) = takeWhile P t"
    proof (cases "\<forall>x\<in>set t. P x")
      case True
      then have "takeWhile P (t @ ch # r) = t @ takeWhile P (ch # r)"
        by (simp add: takeWhile_append)
      also have "\<dots> = t"
        using that by simp
      also have "t = takeWhile P t"
        using True by (metis takeWhile_eq_all_conv)
      finally show ?thesis .
    next
      case False
      then show ?thesis
        by (auto simp: takeWhile_append)
    qed
    have "F (take n (t @ ch # r)) (match_items q (drop n (t @ ch # r))) =
        F (take n t) (match_items q (drop n t))" if "n \<le> length (takeWhile P t)" for n
    proof -
      from that have "n \<le> length t"
        using length_takeWhile_le [of P t] by simp
      then show ?thesis
        by (simp add: ih)
    qed
    then show ?thesis
      unfolding tw by (rule backtrack_cong_le)
  qed
  show ?case
  proof (cases it)
    case (Lit l)
    with it have "ch \<notin> set l" by simp
    then have s: "startsWith (t @ ch # r) l = startsWith t l"
      by (rule startsWith_before)
    show ?thesis
    proof (cases "startsWith t l")
      case True
      then have "length l \<le> length t"
        by (rule startsWith_length)
      with True s Lit show ?thesis
        by (simp add: ih)
    next
      case False
      with s Lit show ?thesis by simp
    qed
  next
    case WsStar
    with it cls [of isWhiteSpace 0 "\<lambda>x m. m"] show ?thesis by simp
  next
    case WsPlus
    with it cls [of isWhiteSpace 1 "\<lambda>x m. m"] show ?thesis by simp
  next
    case HexGroup
    with it cls [of isHexDigit 1 "\<lambda>x m. map_option ((#) x) m"] show ?thesis by simp
  qed
qed

section \<open>The search for the first match\<close>

lemma js_match_hit: "match_items p s = Some caps \<Longrightarrow> js_match p s = Some caps"
  by (cases s) simp_all

lemma js_match_None_here: "js_match p s = None \<Longrightarrow> match_items p s = None"
  by (cases s) (simp_all split: option.splits)

lemma js_match_drop:
  "match_items p (drop n s) = Some caps \<Longrightarrow> \<exists>caps'. js_match p s = Some caps'"
proof (induction s arbitrary: n)
  case Nil
  then show ?case by simp
next
  case (Cons c s)
  show ?case
  proof (cases n)
    case 0
    with Cons.prems show ?thesis by simp
  next
    case (Suc m)
    with Cons.prems have "match_items p (drop m s) = Some caps" by simp
    with Cons.IH obtain caps' where "js_match p s = Some caps'" by blast
    then show ?thesis
      by (cases "match_items p (c # s)") simp_all
  qed
qed

text \<open>No attempt succeeds where the text does not begin with v.\<close>

lemma var_skip_no_v:
  "CHR ''v'' \<notin> set u \<Longrightarrow> js_match (Lit ''var'' # q) (u @ s) = js_match (Lit ''var'' # q) s"
  by (induction u) auto

text \<open>
  A text without a match, followed by a text that begins with v: the pattern after
  \<open>var\<close> cannot consume a v, so no match begins in the first text.
\<close>

lemma var_skip_free:
  assumes "js_match (Lit ''var'' # q) pre = None" "\<forall>it\<in>set q. avoids (CHR ''v'') it"
  shows "js_match (Lit ''var'' # q) (pre @ CHR ''v'' # r) =
     js_match (Lit ''var'' # q) (CHR ''v'' # r)"
  using assms(1)
proof (induction pre)
  case Nil
  show ?case by simp
next
  case (Cons c pre)
  from Cons.prems have here: "match_items (Lit ''var'' # q) (c # pre) = None"
    and rest: "js_match (Lit ''var'' # q) pre = None"
    by (simp_all del: match_items.simps split: option.splits)
  have "match_items (Lit ''var'' # q) (c # pre @ CHR ''v'' # r) = None"
  proof (cases "startsWith (c # pre) ''var''")
    case True
    then obtain t where t: "c # pre = ''var'' @ t"
      by (auto simp: startsWith_iff)
    then have "match_items (Lit ''var'' # q) (c # pre @ CHR ''v'' # r) =
        match_items q (t @ CHR ''v'' # r)"
      by simp
    also have "\<dots> = match_items q t"
      by (rule match_before [OF assms(2)])
    also have "\<dots> = match_items (Lit ''var'' # q) (c # pre)"
      using t by simp
    finally show ?thesis
      using here by simp
  next
    case False
    then have "\<not> startsWith (c # pre @ CHR ''v'' # r) ''var''"
      by (cases pre; cases "tl pre") auto
    then show ?thesis by (simp del: startsWith.simps)
  qed
  with Cons.IH [OF rest] show ?case by simp
qed

text \<open>A pattern fails where its beginning fails, and its end matches somewhere after.\<close>

lemma match_prefix:
  "match_items (p @ q) s = Some caps \<Longrightarrow> \<exists>caps'. match_items p s = Some caps'"
proof (induction p arbitrary: s caps)
  case Nil
  show ?case by simp
next
  case (Cons it p)
  have cls: "\<exists>r'. backtrack lo k (\<lambda>n. F n (match_items p (drop n s))) = Some r'"
    if "backtrack lo k (\<lambda>n. F n (match_items (p @ q) (drop n s))) = Some r"
      and F: "\<And>n m. (F n m = None) = (m = None)"
    for lo k r and F :: "nat \<Rightarrow> string list option \<Rightarrow> string list option"
  proof -
    from backtrack_Some [OF that(1)] obtain n where n: "lo \<le> n" "n \<le> k"
      "F n (match_items (p @ q) (drop n s)) = Some r"
      by blast
    then obtain c where "match_items (p @ q) (drop n s) = Some c"
      using F [of n "match_items (p @ q) (drop n s)"] by auto
    with Cons.IH obtain c' where "match_items p (drop n s) = Some c'"
      by blast
    then obtain r' where "F n (match_items p (drop n s)) = Some r'"
      using F [of n "match_items p (drop n s)"] by auto
    with n show ?thesis
      by (intro backtrack_exists [where n = n]) auto
  qed
  show ?case
  proof (cases it)
    case (Lit l)
    with Cons.prems have "startsWith s l" "match_items (p @ q) (drop (length l) s) = Some caps"
      by (simp_all split: if_splits)
    with Cons.IH Lit show ?thesis by simp
  next
    case WsStar
    with Cons.prems cls [of 0 _ "\<lambda>n m. m"] show ?thesis by simp
  next
    case WsPlus
    with Cons.prems cls [of 1 _ "\<lambda>n m. m"] show ?thesis by simp
  next
    case HexGroup
    with Cons.prems cls [of 1 _ "\<lambda>n m. map_option ((#) (take n s)) m"] show ?thesis by simp
  qed
qed

lemma js_match_prefix_None: "js_match p s = None \<Longrightarrow> js_match (p @ q) s = None"
proof (induction s)
  case Nil
  then show ?case
    using match_prefix [of p q "[]"] by (cases "match_items (p @ q) []") auto
next
  case (Cons c s)
  then have "match_items p (c # s) = None" "js_match (p @ q) s = None"
    by (simp_all split: option.splits)
  then show ?case
    using match_prefix [of p q "c # s"] by (cases "match_items (p @ q) (c # s)") auto
qed

lemma match_suffix:
  "match_items (p @ q) s = Some caps \<Longrightarrow> \<exists>n caps'. match_items q (drop n s) = Some caps'"
proof (induction p arbitrary: s caps)
  case Nil
  then show ?case
    by (intro exI [where x = 0]) simp
next
  case (Cons it p)
  have step: "\<exists>n caps'. match_items q (drop n s) = Some caps'"
    if "match_items (p @ q) (drop k s) = Some c" for k c
  proof -
    from Cons.IH [OF that] obtain n caps' where "match_items q (drop n (drop k s)) = Some caps'"
      by blast
    then show ?thesis
      by (intro exI [where x = "n + k"]) simp
  qed
  have cls: "\<exists>n caps'. match_items q (drop n s) = Some caps'"
    if "backtrack lo k (\<lambda>n. F n (match_items (p @ q) (drop n s))) = Some r"
      and F: "\<And>n m. (F n m = None) = (m = None)"
    for lo k r and F :: "nat \<Rightarrow> string list option \<Rightarrow> string list option"
  proof -
    from backtrack_Some [OF that(1)] obtain n where
      "F n (match_items (p @ q) (drop n s)) = Some r"
      by blast
    then obtain c where "match_items (p @ q) (drop n s) = Some c"
      using F [of n "match_items (p @ q) (drop n s)"] by auto
    then show ?thesis by (rule step)
  qed
  show ?case
  proof (cases it)
    case (Lit l)
    with Cons.prems have "match_items (p @ q) (drop (length l) s) = Some caps"
      by (simp split: if_splits)
    then show ?thesis by (rule step)
  next
    case WsStar
    with Cons.prems cls [of 0 _ "\<lambda>n m. m"] show ?thesis by simp
  next
    case WsPlus
    with Cons.prems cls [of 1 _ "\<lambda>n m. m"] show ?thesis by simp
  next
    case HexGroup
    with Cons.prems cls [of 1 _ "\<lambda>n m. map_option ((#) (take n s)) m"] show ?thesis by simp
  qed
qed

text \<open>A part of a pattern that matches nowhere: the pattern matches nowhere.\<close>

lemma js_match_part_None:
  assumes "js_match q s = None"
  shows "js_match (p @ q @ p') s = None"
proof (rule ccontr)
  assume "js_match (p @ q @ p') s \<noteq> None"
  then obtain caps where c: "js_match (p @ q @ p') s = Some caps"
    by auto
  have "\<exists>n caps'. match_items (p @ q @ p') (drop n s) = Some caps'"
    using c
  proof (induction s)
    case Nil
    then show ?case by (intro exI [where x = 0]) simp
  next
    case (Cons x s)
    show ?case
    proof (cases "match_items (p @ q @ p') (x # s)")
      case None
      with Cons.prems have "js_match (p @ q @ p') s = Some caps" by simp
      with Cons.IH obtain n caps' where "match_items (p @ q @ p') (drop n s) = Some caps'"
        by blast
      then show ?thesis
        by (intro exI [where x = "Suc n"]) simp
    next
      case (Some a)
      then show ?thesis by (intro exI [where x = 0]) simp
    qed
  qed
  then obtain n caps' where "match_items (p @ q @ p') (drop n s) = Some caps'"
    by blast
  from match_suffix [OF this] obtain k c' where "match_items (q @ p') (drop k (drop n s)) = Some c'"
    by blast
  from match_prefix [OF this] obtain c'' where "match_items q (drop (k + n) s) = Some c''"
    by auto
  from js_match_drop [OF this] assms show False
    by simp
qed

text \<open>
  A match has one capture for each group of the pattern: one for the pattern of a single
  variable, three for the alternative pattern.
\<close>

lemma match_items_captures:
  "match_items p s = Some caps \<Longrightarrow> length caps = length (filter (\<lambda>it. it = HexGroup) p)"
proof (induction p arbitrary: s caps)
  case Nil
  then show ?case by simp
next
  case (Cons it p)
  show ?case
  proof (cases it)
    case (Lit l)
    with Cons.prems have "match_items p (drop (length l) s) = Some caps"
      by (simp split: if_splits)
    with Cons.IH Lit show ?thesis by simp
  next
    case WsStar
    with Cons.prems obtain n where "match_items p (drop n s) = Some caps"
      by (auto dest: backtrack_Some)
    with Cons.IH WsStar show ?thesis by simp
  next
    case WsPlus
    with Cons.prems obtain n where "match_items p (drop n s) = Some caps"
      by (auto dest: backtrack_Some)
    with Cons.IH WsPlus show ?thesis by simp
  next
    case HexGroup
    with Cons.prems obtain n where
      "map_option ((#) (take n s)) (match_items p (drop n s)) = Some caps"
      by (auto dest: backtrack_Some)
    then obtain c where "match_items p (drop n s) = Some c" "caps = take n s # c"
      by auto
    with Cons.IH HexGroup show ?thesis by simp
  qed
qed

lemma js_match_captures:
  "js_match p s = Some caps \<Longrightarrow> length caps = length (filter (\<lambda>it. it = HexGroup) p)"
proof (induction s)
  case Nil
  then show ?case by (simp add: match_items_captures)
next
  case (Cons c s)
  then show ?case
    by (cases "match_items p (c # s)") (simp_all add: match_items_captures del: match_items.simps)
qed

lemma pattern_captures:
  "js_match (varPattern x) html = Some caps \<Longrightarrow> \<exists>v. caps = [v]"
  "js_match allPattern html = Some caps \<Longrightarrow> \<exists>va vb vc. caps = [va, vb, vc]"
proof -
  assume "js_match (varPattern x) html = Some caps"
  from js_match_captures [OF this] have "length caps = 1"
    by (simp add: varPattern_def toNumbersCall_def)
  then show "\<exists>v. caps = [v]"
    by (cases caps) simp_all
next
  assume "js_match allPattern html = Some caps"
  from js_match_captures [OF this] have "length caps = 3"
    by (simp add: allPattern_def varPattern_def toNumbersCall_def)
  then show "\<exists>va vb vc. caps = [va, vb, vc]"
    by (cases caps; cases "tl caps"; cases "tl (tl caps)") auto
qed

section \<open>Declarations and the patterns\<close>

lemma match_spelled: "spelled p ts rest \<Longrightarrow> match_items p (concat ts @ rest) = Some (groups p ts)"
proof (induction p ts rest rule: spelled.induct)
  case (1 rest)
  show ?case by simp
next
  case (2 it p t ts rest)
  then have ih: "match_items p (concat ts @ rest) = Some (groups p ts)"
    and f: "fits it t" and s: "stops it (concat ts @ rest)"
    by simp_all
  have c: "concat (t # ts) @ rest = t @ concat ts @ rest"
    by simp
  show ?case
  proof (cases it)
    case (Lit l)
    with f ih show ?thesis
      unfolding c by (simp only: fits.simps match_Lit groups.simps)
  next
    case WsStar
    with f s match_WsStar [OF _ _ ih, of t] show ?thesis
      unfolding c by simp
  next
    case WsPlus
    with f s match_WsPlus [OF _ _ _ ih, of t] show ?thesis
      unfolding c by simp
  next
    case HexGroup
    with f s match_HexGroup [OF _ _ ih, of t] show ?thesis
      unfolding c by simp
  qed
next
  case (3 t ts rest)
  then show ?case by simp
next
  case (4 it p rest)
  then show ?case by simp
qed

lemma not_class_v: "\<not> isWhiteSpace (CHR ''v'')" "\<not> isHexDigit (CHR ''v'')"
  by (simp_all add: isWhiteSpace_def isHexDigit_def)

lemma class_no_v:
  "list_all isWhiteSpace w \<Longrightarrow> CHR ''v'' \<notin> set w"
  "list_all isHexDigit h \<Longrightarrow> CHR ''v'' \<notin> set h"
  using not_class_v by (auto simp: list_all_iff)

lemma callText_no_v:
  assumes "spacing_ok sp" "isHexString v"
  shows "CHR ''v'' \<notin> set (callText sp v)"
  using assms class_no_v
  by (simp add: callText_def spacing_ok_def isHexString_def)

lemma commaText_no_v: "spacing_ok sp \<Longrightarrow> CHR ''v'' \<notin> set (commaText sp)"
  using class_no_v by (simp add: commaText_def spacing_ok_def)

lemma varPattern_avoids_v:
  "cx \<noteq> CHR ''v'' \<Longrightarrow> \<forall>it\<in>set ([WsPlus, Lit [cx]] @ toNumbersCall). avoids (CHR ''v'') it"
  using not_class_v by (simp add: toNumbersCall_def)

lemma varPattern_Cons: "varPattern x = Lit ''var'' # ([WsPlus, Lit x] @ toNumbersCall)"
  by (simp add: varPattern_def)

lemma declaration_hit:
  assumes "spacing_ok sp" "isHexString v" "\<not> isWhiteSpace cx"
  shows "match_items (varPattern [cx]) (declarationText sp [cx] v @ rest) = Some [v]"
proof -
  let ?ts = "[''var'', sp_var sp, [cx], sp_name sp, ''='', sp_eq sp, ''toNumbers'', sp_fn sp,
     ''('', sp_open sp, [CHR 0x22], v, [CHR 0x22], sp_close sp, '')'']"
  have "spelled (varPattern [cx]) ?ts rest"
    using assms
    by (simp add: varPattern_def toNumbersCall_def spacing_ok_def isWhiteSpace_def
        isHexDigit_def)
  from match_spelled [OF this] show ?thesis
    by (simp add: varPattern_def toNumbersCall_def declarationText_def bindingText_def
        callText_def)
qed

lemma declaration_miss:
  assumes "spacing_ok sp" "\<not> isWhiteSpace cx" "\<not> isWhiteSpace cy" "cx \<noteq> cy"
  shows "match_items (varPattern [cx]) (declarationText sp [cy] v @ rest) = None"
proof -
  have "match_items (varPattern [cx]) (declarationText sp [cy] v @ rest) =
      match_items (WsPlus # Lit [cx] # toNumbersCall) (sp_var sp @ cy # callText sp v @ rest)"
    unfolding varPattern_Cons declarationText_def bindingText_def append_assoc
    by (simp only: match_Lit) simp
  also have "\<dots> = None"
    using assms by (intro match_WsPlus_Lit_None) (simp_all add: spacing_ok_def)
  finally show ?thesis .
qed

lemma declarationText_Cons:
  "declarationText sp x v = CHR ''v'' # (''ar'' @ sp_var sp @ bindingText sp x v)"
  by (simp add: declarationText_def)

lemma declaration_tail_no_v:
  assumes "spacing_ok sp" "isHexString v" "CHR ''v'' \<notin> set x"
  shows "CHR ''v'' \<notin> set (''ar'' @ sp_var sp @ bindingText sp x v)"
  using assms callText_no_v [OF assms(1,2)] class_no_v(1) [of "sp_var sp"]
  by (simp add: bindingText_def spacing_ok_def)

lemma js_match_miss: "match_items p (c # s) = None \<Longrightarrow> js_match p (c # s) = js_match p s"
  by simp

lemma skip_to_declaration:
  assumes "js_match (Lit ''var'' # q) t = None" "\<forall>it\<in>set q. avoids (CHR ''v'') it"
  shows "js_match (Lit ''var'' # q) (t @ declarationText sp x v @ rest) =
     js_match (Lit ''var'' # q) (declarationText sp x v @ rest)"
  unfolding declarationText_Cons append_Cons
  by (rule var_skip_free [OF assms])

text \<open>The search finds the declaration of its variable after a text without one.\<close>

lemma find_declaration:
  assumes "spacing_ok sp" "isHexString v" "\<not> isWhiteSpace cx" "cx \<noteq> CHR ''v''"
    and "js_match (varPattern [cx]) t = None"
  shows "js_match (varPattern [cx]) (t @ declarationText sp [cx] v @ rest) = Some [v]"
proof -
  have "js_match (varPattern [cx]) (t @ declarationText sp [cx] v @ rest) =
      js_match (varPattern [cx]) (declarationText sp [cx] v @ rest)"
    using assms(5) unfolding varPattern_Cons
    by (rule skip_to_declaration [OF _ varPattern_avoids_v [OF assms(4)]])
  also have "\<dots> = Some [v]"
    by (rule js_match_hit [OF declaration_hit [OF assms(1-3)]])
  finally show ?thesis .
qed

text \<open>The search passes a text without a declaration and the declaration of another variable.\<close>

lemma pass_declaration:
  assumes "spacing_ok sp" "isHexString v" "\<not> isWhiteSpace cx" "cx \<noteq> CHR ''v''"
    and "\<not> isWhiteSpace cy" "cy \<noteq> CHR ''v''" "cx \<noteq> cy"
    and "js_match (varPattern [cx]) t = None"
  shows "js_match (varPattern [cx]) (t @ declarationText sp [cy] v @ rest) =
     js_match (varPattern [cx]) rest"
proof -
  have "js_match (varPattern [cx]) (t @ declarationText sp [cy] v @ rest) =
      js_match (varPattern [cx]) (declarationText sp [cy] v @ rest)"
    using assms(8) unfolding varPattern_Cons
    by (rule skip_to_declaration [OF _ varPattern_avoids_v [OF assms(4)]])
  also have "\<dots> = js_match (varPattern [cx]) ((''ar'' @ sp_var sp @ bindingText sp [cy] v) @ rest)"
    using declaration_miss [OF assms(1,3,5,7), of v rest]
    unfolding declarationText_Cons append_Cons
    by (rule js_match_miss)
  also have "\<dots> = js_match (varPattern [cx]) rest"
    unfolding varPattern_Cons
    by (rule var_skip_no_v [OF declaration_tail_no_v [OF assms(1,2)]]) (use assms(6) in simp)
  finally show ?thesis .
qed

section \<open>The extractor on the two layouts\<close>

lemma name_chars:
  "\<not> isWhiteSpace (CHR ''a'')" "\<not> isWhiteSpace (CHR ''b'')" "\<not> isWhiteSpace (CHR ''c'')"
  by (simp_all add: isWhiteSpace_def)

lemma multiLayout_matches:
  assumes sp: "spacing_ok sp" and v: "isHexString va" "isHexString vb" "isHexString vc"
    and free: "declaration_free pre" "declaration_free m1" "declaration_free m2"
  shows "js_match (varPattern ''a'') (multiLayout sp pre m1 m2 post va vb vc) = Some [va]"
    and "js_match (varPattern ''b'') (multiLayout sp pre m1 m2 post va vb vc) = Some [vb]"
    and "js_match (varPattern ''c'') (multiLayout sp pre m1 m2 post va vb vc) = Some [vc]"
proof -
  from free have a: "js_match (varPattern ''a'') pre = None"
    and b: "js_match (varPattern ''b'') pre = None" "js_match (varPattern ''b'') m1 = None"
    and c: "js_match (varPattern ''c'') pre = None" "js_match (varPattern ''c'') m1 = None"
      "js_match (varPattern ''c'') m2 = None"
    by (simp_all add: declaration_free_def)
  show "js_match (varPattern ''a'') (multiLayout sp pre m1 m2 post va vb vc) = Some [va]"
    unfolding multiLayout_def append_assoc
    by (rule find_declaration [OF sp v(1) name_chars(1) _ a]) simp
  have "js_match (varPattern ''b'') (multiLayout sp pre m1 m2 post va vb vc) =
      js_match (varPattern ''b'')
        (m1 @ declarationText sp ''b'' vb @ m2 @ declarationText sp ''c'' vc @ post)"
    unfolding multiLayout_def append_assoc
    by (rule pass_declaration [OF sp v(1) name_chars(2) _ name_chars(1) _ _ b(1)]) simp_all
  also have "\<dots> = Some [vb]"
    by (rule find_declaration [OF sp v(2) name_chars(2) _ b(2)]) simp
  finally show "js_match (varPattern ''b'') (multiLayout sp pre m1 m2 post va vb vc) = Some [vb]" .
  have "js_match (varPattern ''c'') (multiLayout sp pre m1 m2 post va vb vc) =
      js_match (varPattern ''c'')
        (m1 @ declarationText sp ''b'' vb @ m2 @ declarationText sp ''c'' vc @ post)"
    unfolding multiLayout_def append_assoc
    by (rule pass_declaration [OF sp v(1) name_chars(3) _ name_chars(1) _ _ c(1)]) simp_all
  also have "\<dots> = js_match (varPattern ''c'') (m2 @ declarationText sp ''c'' vc @ post)"
    by (rule pass_declaration [OF sp v(2) name_chars(3) _ name_chars(2) _ _ c(2)]) simp_all
  also have "\<dots> = Some [vc]"
    by (rule find_declaration [OF sp v(3) name_chars(3) _ c(3)]) simp
  finally show "js_match (varPattern ''c'') (multiLayout sp pre m1 m2 post va vb vc) = Some [vc]" .
qed

lemma allPattern_Cons:
  "allPattern = Lit ''var'' # ([WsPlus, Lit ''a''] @ toNumbersCall @
     [WsStar, Lit '','', WsStar, Lit ''b''] @ toNumbersCall @
     [WsStar, Lit '','', WsStar, Lit ''c''] @ toNumbersCall)"
  by (simp add: allPattern_def varPattern_def)

lemma allPattern_avoids_v:
  "\<forall>it\<in>set ([WsPlus, Lit ''a''] @ toNumbersCall @
     [WsStar, Lit '','', WsStar, Lit ''b''] @ toNumbersCall @
     [WsStar, Lit '','', WsStar, Lit ''c''] @ toNumbersCall). avoids (CHR ''v'') it"
  using not_class_v by (simp add: toNumbersCall_def)

lemma joined_hit:
  assumes "spacing_ok sp" "isHexString va" "isHexString vb" "isHexString vc"
  shows "match_items allPattern
     (declarationText sp ''a'' va @ commaText sp @ bindingText sp ''b'' vb @ commaText sp @
      bindingText sp ''c'' vc @ post) = Some [va, vb, vc]"
proof -
  let ?call = "\<lambda>v. [sp_name sp, ''='', sp_eq sp, ''toNumbers'', sp_fn sp,
     ''('', sp_open sp, [CHR 0x22], v, [CHR 0x22], sp_close sp, '')'']"
  let ?ts = "[''var'', sp_var sp, ''a''] @ ?call va @
     [sp_before_comma sp, '','', sp_after_comma sp, ''b''] @ ?call vb @
     [sp_before_comma sp, '','', sp_after_comma sp, ''c''] @ ?call vc"
  have "spelled allPattern ?ts post"
    using assms
    by (simp add: allPattern_def varPattern_def toNumbersCall_def spacing_ok_def
        isWhiteSpace_def isHexDigit_def)
  from match_spelled [OF this] show ?thesis
    by (simp add: allPattern_def varPattern_def toNumbersCall_def declarationText_def
        bindingText_def callText_def commaText_def)
qed

lemma singleLayout_matches:
  assumes sp: "spacing_ok sp" and v: "isHexString va" "isHexString vb" "isHexString vc"
    and free: "declaration_free pre" "declaration_free post"
  shows "js_match (varPattern ''a'') (singleLayout sp pre post va vb vc) = Some [va]"
    and "js_match (varPattern ''b'') (singleLayout sp pre post va vb vc) = None"
    and "js_match allPattern (singleLayout sp pre post va vb vc) = Some [va, vb, vc]"
proof -
  from free have a: "js_match (varPattern ''a'') pre = None"
    and b: "js_match (varPattern ''b'') pre = None" "js_match (varPattern ''b'') post = None"
    by (simp_all add: declaration_free_def)
  show "js_match (varPattern ''a'') (singleLayout sp pre post va vb vc) = Some [va]"
    unfolding singleLayout_def append_assoc
    by (rule find_declaration [OF sp v(1) name_chars(1) _ a]) simp
  have "js_match (varPattern ''b'') (singleLayout sp pre post va vb vc) =
      js_match (varPattern ''b'')
        ((commaText sp @ bindingText sp ''b'' vb @ commaText sp @ bindingText sp ''c'' vc) @ post)"
    unfolding singleLayout_def append_assoc
    by (rule pass_declaration [OF sp v(1) name_chars(2) _ name_chars(1) _ _ b(1)]) simp_all
  also have "\<dots> = js_match (varPattern ''b'') post"
    unfolding varPattern_Cons
    by (rule var_skip_no_v)
      (simp add: commaText_no_v [OF sp] callText_no_v [OF sp] v bindingText_def)
  finally show "js_match (varPattern ''b'') (singleLayout sp pre post va vb vc) = None"
    using b(2) by simp
  have "js_match (varPattern ''a'' @ [WsStar, Lit '','', WsStar, Lit ''b''] @ toNumbersCall @
      [WsStar, Lit '','', WsStar, Lit ''c''] @ toNumbersCall) pre = None"
    by (rule js_match_prefix_None [OF a])
  then have "js_match allPattern pre = None"
    by (simp only: allPattern_def)
  then have "js_match allPattern (singleLayout sp pre post va vb vc) =
      js_match allPattern
        (declarationText sp ''a'' va @ commaText sp @ bindingText sp ''b'' vb @ commaText sp @
         bindingText sp ''c'' vc @ post)"
    unfolding singleLayout_def append_assoc allPattern_Cons
    by (rule skip_to_declaration [OF _ allPattern_avoids_v])
  also have "\<dots> = Some [va, vb, vc]"
    by (rule js_match_hit [OF joined_hit [OF sp v]])
  finally show "js_match allPattern (singleLayout sp pre post va vb vc) = Some [va, vb, vc]" .
qed

lemma no_binding_no_result:
  assumes "js_match (bindingPattern ''a'') html = None \<or>
     js_match (bindingPattern ''b'') html = None \<or> js_match (bindingPattern ''c'') html = None"
  shows "extractEncryptedValues html = None"
proof -
  have var: "js_match (varPattern x) html = None" if "js_match (bindingPattern x) html = None" for x
    using js_match_part_None [OF that, of "[Lit ''var'', WsPlus]" "[]"]
    by (simp add: varPattern_def bindingPattern_def)
  have "js_match allPattern html = None"
    using assms
  proof (elim disjE)
    assume "js_match (bindingPattern ''a'') html = None"
    from js_match_part_None [OF this, of "[Lit ''var'', WsPlus]"
        "[WsStar, Lit '','', WsStar, Lit ''b''] @ toNumbersCall @
         [WsStar, Lit '','', WsStar, Lit ''c''] @ toNumbersCall"]
    show ?thesis
      by (simp add: allPattern_def varPattern_def bindingPattern_def)
  next
    assume "js_match (bindingPattern ''b'') html = None"
    from js_match_part_None [OF this, of "varPattern ''a'' @ [WsStar, Lit '','', WsStar]"
        "[WsStar, Lit '','', WsStar, Lit ''c''] @ toNumbersCall"]
    show ?thesis
      by (simp add: allPattern_def bindingPattern_def)
  next
    assume "js_match (bindingPattern ''c'') html = None"
    from js_match_part_None [OF this, of "varPattern ''a'' @
        [WsStar, Lit '','', WsStar, Lit ''b''] @ toNumbersCall @ [WsStar, Lit '','', WsStar]" "[]"]
    show ?thesis
      by (simp add: allPattern_def bindingPattern_def)
  qed
  moreover have "js_match (varPattern ''a'') html = None \<or>
      js_match (varPattern ''b'') html = None \<or> js_match (varPattern ''c'') html = None"
    using assms var [of "''a''"] var [of "''b''"] var [of "''c''"]
    by (elim disjE) (simp_all del: js_match.simps)
  ultimately show ?thesis
    by (auto simp: extractEncryptedValues_def split: option.splits list.splits)
qed

text \<open>
  Claim C7.  Take three values (non-empty strings of hexadecimal digits), a page that
  declares them in three separate declarations and a page that declares them in one
  comma-joined declaration, each with any admissible white space, where the texts before,
  between and after the declarations contain no declaration of a, b or c themselves.
  \<open>extractEncryptedValues\<close> returns the triple of the three values on the first page
  and the same result on the second.  And on every page: if for one of the three names
  the binding of that name to a \<open>toNumbers\<close> call on a quoted value occurs nowhere, the
  result is \<open>null\<close>; a result always has all three values.
\<close>

theorem C7_layouts_agree:
  "(spacing_ok sp \<and> spacing_ok sp' \<and> isHexString va \<and> isHexString vb \<and> isHexString vc \<and>
    declaration_free pre \<and> declaration_free m1 \<and> declaration_free m2 \<and>
    declaration_free pre' \<and> declaration_free post' \<longrightarrow>
      extractEncryptedValues (multiLayout sp pre m1 m2 post va vb vc) =
        Some \<lparr>enc_a = va, enc_b = vb, enc_c = vc\<rparr> \<and>
      extractEncryptedValues (singleLayout sp' pre' post' va vb vc) =
        extractEncryptedValues (multiLayout sp pre m1 m2 post va vb vc)) \<and>
   (js_match (bindingPattern ''a'') html = None \<or> js_match (bindingPattern ''b'') html = None \<or>
    js_match (bindingPattern ''c'') html = None \<longrightarrow>
      extractEncryptedValues html = None)"
proof (intro conjI impI)
  assume h: "spacing_ok sp \<and> spacing_ok sp' \<and> isHexString va \<and> isHexString vb \<and>
    isHexString vc \<and> declaration_free pre \<and> declaration_free m1 \<and> declaration_free m2 \<and>
    declaration_free pre' \<and> declaration_free post'"
  then have sp: "spacing_ok sp" "spacing_ok sp'"
    and v: "isHexString va" "isHexString vb" "isHexString vc"
    and free: "declaration_free pre" "declaration_free m1" "declaration_free m2"
    and free': "declaration_free pre'" "declaration_free post'"
    by blast+
  show multi: "extractEncryptedValues (multiLayout sp pre m1 m2 post va vb vc) =
      Some \<lparr>enc_a = va, enc_b = vb, enc_c = vc\<rparr>"
    by (simp add: extractEncryptedValues_def multiLayout_matches [OF sp(1) v free])
  have "extractEncryptedValues (singleLayout sp' pre' post' va vb vc) =
      Some \<lparr>enc_a = va, enc_b = vb, enc_c = vc\<rparr>"
    by (simp add: extractEncryptedValues_def singleLayout_matches [OF sp(2) v free'])
  with multi show "extractEncryptedValues (singleLayout sp' pre' post' va vb vc) =
      extractEncryptedValues (multiLayout sp pre m1 m2 post va vb vc)"
    by simp
next
  assume "js_match (bindingPattern ''a'') html = None \<or>
    js_match (bindingPattern ''b'') html = None \<or> js_match (bindingPattern ''c'') html = None"
  then show "extractEncryptedValues html = None"
    by (rule no_binding_no_result)
qed

theorem C7_layouts_agree_witness:
  "extractEncryptedValues
     (multiLayout compactSpacing ''<script>var e=[];'' '';'' '';'' '';</script>'' ''f6'' ''98'' ''fd'') =
     Some \<lparr>enc_a = ''f6'', enc_b = ''98'', enc_c = ''fd''\<rparr> \<and>
   extractEncryptedValues (singleLayout wideSpacing ''<script>'' '';</script>'' ''f6'' ''98'' ''fd'') =
     extractEncryptedValues
       (multiLayout compactSpacing ''<script>var e=[];'' '';'' '';'' '';</script>'' ''f6'' ''98'' ''fd'') \<and>
   extractEncryptedValues ''<html>no challenge</html>'' = None"
proof -
  have sp: "spacing_ok compactSpacing" "spacing_ok wideSpacing"
    by (simp_all add: spacing_ok_def compactSpacing_def wideSpacing_def isWhiteSpace_def)
  have v: "isHexString ''f6''" "isHexString ''98''" "isHexString ''fd''"
    by (simp_all add: isHexString_def isHexDigit_def)
  have free: "declaration_free ''<script>var e=[];''" "declaration_free '';''"
    "declaration_free ''<script>''" "declaration_free '';</script>''"
    by code_simp+
  have none: "js_match (bindingPattern ''a'') ''<html>no challenge</html>'' = None"
    by code_simp
  note t = C7_layouts_agree [of compactSpacing wideSpacing "''f6''" "''98''" "''fd''"
      "''<script>var e=[];''" "'';''" "'';''" "''<script>''" "'';</script>''" "'';</script>''"
      "''<html>no challenge</html>''"]
  have 1: "extractEncryptedValues
     (multiLayout compactSpacing ''<script>var e=[];'' '';'' '';'' '';</script>'' ''f6'' ''98'' ''fd'') =
     Some \<lparr>enc_a = ''f6'', enc_b = ''98'', enc_c = ''fd''\<rparr> \<and>
   extractEncryptedValues (singleLayout wideSpacing ''<script>'' '';</script>'' ''f6'' ''98'' ''fd'') =
     extractEncryptedValues
       (multiLayout compactSpacing ''<script>var e=[];'' '';'' '';'' '';</script>'' ''f6'' ''98'' ''fd'')"
    by (rule mp [OF conjunct1 [OF t]]) (intro conjI sp v free)
  have 2: "extractEncryptedValues ''<html>no challenge</html>'' = None"
    by (rule mp [OF conjunct2 [OF t]]) (rule disjI1 [OF none])
  from 1 2 show ?thesis
    by (intro conjI) (elim conjE, assumption)+
qed

end
